theory Spec2Isabelle
  imports Complex_Main
begin

section \<open>JSON values and Python dictionaries\<close>

text \<open>
  The state and configuration files of all four scripts are JSON documents read with
  \<^verbatim>\<open>json.load\<close>.  A JSON number is a real (the rounding of floats is not modelled);
  a JSON object, like a Python \<^verbatim>\<open>dict\<close>, is an association list in insertion order
  whose keys are unique.
\<close>

datatype json =
    JNull
  | JBool bool
  | JNum real
  | JStr string
  | JArr "json list"
  | JObj "(string \<times> json) list"

type_synonym 'v dict = "(string \<times> 'v) list"

datatype error =
    FileNotFoundError
  | KeyError string
  | AttributeError
  | TypeError
  | ValueError
  | SystemExit nat

text \<open>\<^verbatim>\<open>d[k] = v\<close>: an existing key keeps its position, a new key is appended.\<close>

fun dict_set :: "string \<Rightarrow> 'v \<Rightarrow> 'v dict \<Rightarrow> 'v dict" where
  "dict_set k v [] = [(k, v)]"
| "dict_set k v ((k', v') # d) = (if k' = k then (k, v) # d else (k', v') # dict_set k v d)"

text \<open>\<^verbatim>\<open>d.get(k)\<close> on a dictionary of JSON values: \<^verbatim>\<open>None\<close> for a missing key.\<close>

definition dict_get :: "json dict \<Rightarrow> string \<Rightarrow> json" where
  "dict_get d k = (case map_of d k of None \<Rightarrow> JNull | Some v \<Rightarrow> v)"

text \<open>\<^verbatim>\<open>d.get(k, default)\<close>.\<close>

definition dict_get_default :: "'v dict \<Rightarrow> string \<Rightarrow> 'v \<Rightarrow> 'v" where
  "dict_get_default d k dflt = (case map_of d k of None \<Rightarrow> dflt | Some v \<Rightarrow> v)"

text \<open>
  Python's \<^verbatim>\<open>==\<close> between a loaded JSON value and a \<^verbatim>\<open>str\<close>, and between a loaded
  JSON value and a \<^verbatim>\<open>bool\<close> (\<^verbatim>\<open>bool\<close> is a subclass of \<^verbatim>\<open>int\<close>, so \<^verbatim>\<open>1 == True\<close>
  and \<^verbatim>\<open>0.0 == False\<close>).
\<close>

definition py_eq_str :: "json \<Rightarrow> string \<Rightarrow> bool" where
  "py_eq_str v s = (v = JStr s)"

definition py_eq_bool :: "json \<Rightarrow> bool \<Rightarrow> bool" where
  "py_eq_bool v b = (v = JBool b \<or> v = JNum (if b then 1 else 0))"

text \<open>Python truthiness (\<^verbatim>\<open>not x\<close>, \<^verbatim>\<open>if x\<close>) of a loaded JSON value.\<close>

fun truthy :: "json \<Rightarrow> bool" where
  "truthy JNull = False"
| "truthy (JBool b) = b"
| "truthy (JNum x) = (x \<noteq> 0)"
| "truthy (JStr s) = (s \<noteq> [])"
| "truthy (JArr xs) = (xs \<noteq> [])"
| "truthy (JObj kvs) = (kvs \<noteq> [])"

text \<open>
  \<^verbatim>\<open>x.get(k, default)\<close> and \<^verbatim>\<open>x[k]\<close> on a loaded JSON value, which need not be an
  object: only a \<^verbatim>\<open>dict\<close> has \<^verbatim>\<open>get\<close>, and no other JSON value can be subscripted
  with a string.
\<close>

fun py_get :: "json \<Rightarrow> string \<Rightarrow> json \<Rightarrow> error + json" where
  "py_get (JObj d) k dflt = Inr (dict_get_default d k dflt)"
| "py_get _ k dflt = Inl AttributeError"

fun py_index :: "json \<Rightarrow> string \<Rightarrow> error + json" where
  "py_index (JObj d) k = (case map_of d k of None \<Rightarrow> Inl (KeyError k) | Some v \<Rightarrow> Inr v)"
| "py_index _ k = Inl TypeError"

text \<open>\<^verbatim>\<open>BASE_DIR / x\<close>: the right operand of a path join must be a string.\<close>

fun path_join :: "json \<Rightarrow> error + string" where
  "path_join (JStr s) = Inr s"
| "path_join _ = Inl TypeError"

text \<open>Sequencing of steps that may raise.\<close>

definition and_then :: "error + 'a \<Rightarrow> ('a \<Rightarrow> error + 'b) \<Rightarrow> error + 'b" where
  "and_then r f = (case r of Inl e \<Rightarrow> Inl e | Inr v \<Rightarrow> f v)"

text \<open>
  The two expressions with which the scripts read a credential:
  \<^verbatim>\<open>config.get("telegram", {}).get(key)\<close> and \<^verbatim>\<open>config["telegram"][key]\<close>.
\<close>

definition telegram_get :: "json \<Rightarrow> string \<Rightarrow> error + json" where
  "telegram_get config key =
     and_then (py_get config ''telegram'' (JObj [])) (\<lambda>telegram. py_get telegram key JNull)"

definition telegram_index :: "json \<Rightarrow> string \<Rightarrow> error + json" where
  "telegram_index config key =
     and_then (py_index config ''telegram'') (\<lambda>telegram. py_index telegram key)"



section \<open>down\_alert.py: status-change alerts\<close>

text \<open>
  The four alert messages of the script; \<open>alert_text\<close> is the message without its
  leading emoji.
\<close>

datatype alert = PiholeBackUp | PiholeDown | InternetRestored | InternetLost

fun alert_text :: "alert \<Rightarrow> string" where
  "alert_text PiholeBackUp = ''Pi-hole is BACK UP!''"
| "alert_text PiholeDown = ''Pi-hole is DOWN!''"
| "alert_text InternetRestored = ''Internet connection RESTORED!''"
| "alert_text InternetLost = ''Internet connection LOST!''"

fun is_service_alert :: "alert \<Rightarrow> bool" where
  "is_service_alert PiholeBackUp = True"
| "is_service_alert PiholeDown = True"
| "is_service_alert _ = False"

fun is_internet_alert :: "alert \<Rightarrow> bool" where
  "is_internet_alert InternetRestored = True"
| "is_internet_alert InternetLost = True"
| "is_internet_alert _ = False"

text \<open>
  \<open>load_state\<close>: the argument is the content of the state file, \<open>None\<close> when the file
  does not exist.
\<close>

definition load_state :: "json dict option \<Rightarrow> json dict" where
  "load_state state_file =
     (case state_file of
        Some state \<Rightarrow> state
      | None \<Rightarrow> [(''pihole_status'', JStr ''unknown''), (''internet'', JBool True)])"

definition save_state :: "json dict \<Rightarrow> json dict option" where
  "save_state state = Some state"

text \<open>\<^verbatim>\<open>"up" if current_pihole else "down"\<close>\<close>

definition status_label :: "bool \<Rightarrow> string" where
  "status_label current_pihole = (if current_pihole then ''up'' else ''down'')"

text \<open>
  The two transition checks of the main logic: the Pi-hole status change, then the
  internet status change.  Each returns the alerts appended and the updated state.
\<close>

definition pihole_check :: "json dict \<Rightarrow> bool \<Rightarrow> alert list \<times> json dict" where
  "pihole_check state current_pihole =
     (if \<not> py_eq_str (dict_get state ''pihole_status'') (status_label current_pihole)
      then ([if current_pihole then PiholeBackUp else PiholeDown],
            dict_set ''pihole_status'' (JStr (status_label current_pihole)) state)
      else ([], state))"

definition internet_check :: "json dict \<Rightarrow> bool \<Rightarrow> alert list \<times> json dict" where
  "internet_check state current_internet =
     (if \<not> py_eq_bool (dict_get state ''internet'') current_internet
      then ([if current_internet then InternetRestored else InternetLost],
            dict_set ''internet'' (JBool current_internet) state)
      else ([], state))"

text \<open>
  One run of the main logic: load the state, apply both checks, save the state.  The
  result is the list of alerts sent and the state file afterwards.
\<close>

definition main_logic :: "json dict option \<Rightarrow> bool \<times> bool \<Rightarrow> alert list \<times> json dict option" where
  "main_logic state_file obs =
     (let state = load_state state_file;
          (alerts1, state1) = pihole_check state (fst obs);
          (alerts2, state2) = internet_check state1 (snd obs)
      in (alerts1 @ alerts2, save_state state2))"

text \<open>Consecutive runs, each reading the state file the previous one wrote.\<close>

fun runs :: "json dict option \<Rightarrow> (bool \<times> bool) list \<Rightarrow> alert list list \<times> json dict option" where
  "runs state_file [] = ([], state_file)"
| "runs state_file (obs # rest) =
     (let (alerts, state_file') = main_logic state_file obs;
          (more, final) = runs state_file' rest
      in (alerts # more, final))"

text \<open>Whether the stored status of a domain differs from the observed one.\<close>

definition service_differs :: "json dict option \<Rightarrow> bool \<Rightarrow> bool" where
  "service_differs state_file current_pihole =
     (\<not> py_eq_str (dict_get (load_state state_file) ''pihole_status'') (status_label current_pihole))"

definition internet_differs :: "json dict option \<Rightarrow> bool \<Rightarrow> bool" where
  "internet_differs state_file current_internet =
     (\<not> py_eq_bool (dict_get (load_state state_file) ''internet'') current_internet)"

definition service_alerts :: "alert list \<Rightarrow> nat" where
  "service_alerts alerts = length (filter is_service_alert alerts)"

definition internet_alerts :: "alert list \<Rightarrow> nat" where
  "internet_alerts alerts = length (filter is_internet_alert alerts)"


section \<open>monitor.py: threshold alerts\<close>

definition THRESHOLDS :: "real dict" where
  "THRESHOLDS = [(''cpu'', 85), (''ram'', 90), (''disk'', 90), (''temp'', 75)]"

text \<open>
  A line of the alert message: the header, or the line of a breached metric with its
  key (printed in upper case), its value and its threshold.  The message is the lines
  joined by newlines.
\<close>

datatype msg_line = Header | Breach string real real

text \<open>
  The loop of \<open>check_alerts\<close> over \<^verbatim>\<open>metrics.items()\<close>, with the three variables it
  updates: \<open>send_alert\<close>, \<open>alerts\<close> and \<open>msg_lines\<close>.  A metric value is a float or
  \<^verbatim>\<open>None\<close>.  Comparing a number with a missing threshold (\<^verbatim>\<open>None\<close>) raises
  \<^verbatim>\<open>TypeError\<close>; \<^verbatim>\<open>FORCE_CHECK or not prev_alerts.get(key, False)\<close> reads the
  previous flags only when \<open>FORCE_CHECK\<close> is false.
\<close>

fun check_alerts_loop ::
  "bool \<Rightarrow> json \<Rightarrow> (string \<times> real option) list \<Rightarrow> bool \<times> json dict \<times> msg_line list
     \<Rightarrow> error + (bool \<times> json dict \<times> msg_line list)" where
  "check_alerts_loop FORCE_CHECK prev_alerts [] acc = Inr acc"
| "check_alerts_loop FORCE_CHECK prev_alerts ((key, value) # rest) (send_alert, alerts, msg_lines) =
     (case value of
        None \<Rightarrow>
          check_alerts_loop FORCE_CHECK prev_alerts rest
            (send_alert, dict_set key (JBool False) alerts, msg_lines)
      | Some x \<Rightarrow>
          (case map_of THRESHOLDS key of
             None \<Rightarrow> Inl TypeError
           | Some threshold \<Rightarrow>
               if x > threshold then
                 (if FORCE_CHECK then
                    check_alerts_loop FORCE_CHECK prev_alerts rest
                      (True, dict_set key (JBool True) alerts, msg_lines @ [Breach key x threshold])
                  else
                    (case py_get prev_alerts key (JBool False) of
                       Inl e \<Rightarrow> Inl e
                     | Inr flag \<Rightarrow>
                         check_alerts_loop FORCE_CHECK prev_alerts rest
                           (send_alert \<or> \<not> truthy flag, dict_set key (JBool True) alerts,
                            msg_lines @ [Breach key x threshold])))
               else
                 check_alerts_loop FORCE_CHECK prev_alerts rest
                   (send_alert, dict_set key (JBool False) alerts, msg_lines)))"

definition check_alerts ::
  "bool \<Rightarrow> (string \<times> real option) list \<Rightarrow> json
     \<Rightarrow> error + (bool \<times> json dict \<times> msg_line list)" where
  "check_alerts FORCE_CHECK metrics prev_alerts =
     check_alerts_loop FORCE_CHECK prev_alerts metrics (False, [], [Header])"

text \<open>The metrics as they are written to the state file.\<close>

definition metrics_json :: "(string \<times> real option) list \<Rightarrow> json" where
  "metrics_json metrics =
     JObj (map (\<lambda>(k, v). (k, case v of None \<Rightarrow> JNull | Some x \<Rightarrow> JNum x)) metrics)"

definition monitor_load_state :: "json dict option \<Rightarrow> json dict" where
  "monitor_load_state state_file =
     (case state_file of
        Some state \<Rightarrow> state
      | None \<Rightarrow> [(''metrics'', JObj []), (''alerts'', JObj []), (''last_check'', JNull)])"

text \<open>
  \<open>main\<close> of monitor.py, given the sampled metrics and the time: the result is the
  error raised (if any), the alert message sent (if any) and the state file afterwards.
  An exception of \<open>check_alerts\<close> leaves the state file as it was.
\<close>

definition monitor_main ::
  "bool \<Rightarrow> (string \<times> real option) list \<Rightarrow> string \<Rightarrow> json dict option
     \<Rightarrow> error option \<times> msg_line list option \<times> json dict option" where
  "monitor_main FORCE_CHECK metrics now state_file =
     (let state = monitor_load_state state_file;
          prev_alerts = dict_get_default state ''alerts'' (JObj [])
      in case check_alerts FORCE_CHECK metrics prev_alerts of
           Inl e \<Rightarrow> (Some e, None, state_file)
         | Inr (send_alert, alerts, alert_msg) \<Rightarrow>
             (None,
              if send_alert then Some alert_msg else None,
              Some (dict_set ''last_check'' (JStr now)
                     (dict_set ''alerts'' (JObj alerts)
                       (dict_set ''metrics'' (metrics_json metrics) state)))))"

text \<open>
  The flag stored for a metric, and consecutive evaluations in which the flags returned
  by one evaluation are the previous flags of the next.  The result lists
  \<open>send_alert\<close> of every evaluation.
\<close>

fun evaluations ::
  "bool \<Rightarrow> json \<Rightarrow> (string \<times> real option) list list \<Rightarrow> error + bool list" where
  "evaluations FORCE_CHECK prev_alerts [] = Inr []"
| "evaluations FORCE_CHECK prev_alerts (metrics # rest) =
     (case check_alerts FORCE_CHECK metrics prev_alerts of
        Inl e \<Rightarrow> Inl e
      | Inr (send_alert, alerts, msg) \<Rightarrow>
          (case evaluations FORCE_CHECK (JObj alerts) rest of
             Inl e \<Rightarrow> Inl e
           | Inr sends \<Rightarrow> Inr (send_alert # sends)))"

text \<open>A metric breaches when its sampled value is a number above its threshold.\<close>

definition breaches :: "string \<Rightarrow> real option \<Rightarrow> bool" where
  "breaches key value =
     (case (value, map_of THRESHOLDS key) of
        (Some x, Some threshold) \<Rightarrow> x > threshold
      | _ \<Rightarrow> False)"


section \<open>maintenance.py: the task runner\<close>

text \<open>
  String helpers: \<^verbatim>\<open>str.strip()\<close> removes the whitespace at both ends (the ASCII
  whitespace characters are modelled), \<^verbatim>\<open>sep.join(xs)\<close> concatenates with a separator.
\<close>

definition is_space :: "char \<Rightarrow> bool" where
  "is_space c = (c \<in> set [CHR '' '', CHR 0x09, CHR 0x0A, CHR 0x0B, CHR 0x0C, CHR 0x0D,
                            CHR 0x1C, CHR 0x1D, CHR 0x1E, CHR 0x1F])"

definition strip :: "string \<Rightarrow> string" where
  "strip s = rev (dropWhile is_space (rev (dropWhile is_space s)))"

fun join :: "string \<Rightarrow> string list \<Rightarrow> string" where
  "join sep [] = []"
| "join sep [x] = x"
| "join sep (x # y # ys) = x @ sep @ join sep (y # ys)"

text \<open>
  What happens when \<open>run_command\<close> launches a shell command and reads its combined
  output line by line: the process ends with a return code after printing some lines, or
  an exception is raised while it is launched, read or waited for.
\<close>

datatype popen_outcome = Finished int "string list" | PopenRaised string

text \<open>
  \<open>run_command\<close>: the first argument is the environment, which gives the outcome of
  every shell command.  Logging is not modelled, so the description is unused.
\<close>

definition run_command :: "(string \<Rightarrow> popen_outcome) \<Rightarrow> string \<Rightarrow> string \<Rightarrow> bool \<times> string" where
  "run_command shell cmd description =
     (case shell cmd of
        Finished returncode output_lines \<Rightarrow>
          if returncode \<noteq> 0 then (False, join [CHR 0x0A] (map strip output_lines))
          else (True, join [CHR 0x0A] (map strip output_lines))
      | PopenRaised e \<Rightarrow> (False, e))"

definition os_update :: "(string \<Rightarrow> popen_outcome) \<Rightarrow> bool \<times> string" where
  "os_update shell = run_command shell ''sudo apt update && sudo apt upgrade -y'' ''OS update & upgrade''"

definition pihole_update :: "(string \<Rightarrow> popen_outcome) \<Rightarrow> bool \<times> string" where
  "pihole_update shell = run_command shell ''sudo pihole -up'' ''Pi-hole update''"

definition gravity_update :: "(string \<Rightarrow> popen_outcome) \<Rightarrow> bool \<times> string" where
  "gravity_update shell = run_command shell ''sudo pihole -g'' ''Pi-hole gravity update''"

definition clear_logs :: "(string \<Rightarrow> popen_outcome) \<Rightarrow> bool \<times> string" where
  "clear_logs shell = run_command shell ''sudo pihole flush'' ''Flush Pi-hole query logs''"

definition tasks_to_run :: "((string \<Rightarrow> popen_outcome) \<Rightarrow> bool \<times> string) dict" where
  "tasks_to_run =
     [(''os_update'', os_update), (''pihole_update'', pihole_update),
      (''gravity'', gravity_update), (''clear_logs'', clear_logs)]"

text \<open>
  The configuration block of maintenance.py.  The argument is the parsed configuration
  file, \<open>None\<close> when the file does not exist.  The result holds the final \<open>TEST_MODE\<close>,
  the two credentials and the three configured paths.
\<close>

record maintenance_config =
  TEST_MODE :: bool
  BOT_TOKEN :: json
  CHAT_ID :: json
  STATE_DIR :: string
  LOGS_DIR :: string
  VENV_DIR :: string

definition maintenance_paths :: "json \<Rightarrow> error + string \<times> string \<times> string" where
  "maintenance_paths config =
     and_then (py_index config ''paths'') (\<lambda>paths.
     and_then (py_index paths ''maintenance'') (\<lambda>maintenance.
     and_then (py_index maintenance ''state'') (\<lambda>state.
     and_then (path_join state) (\<lambda>state_dir.
     and_then (py_index config ''paths'') (\<lambda>paths'.
     and_then (py_index paths' ''maintenance'') (\<lambda>maintenance'.
     and_then (py_index maintenance' ''logs'') (\<lambda>logs.
     and_then (path_join logs) (\<lambda>logs_dir.
     and_then (py_index config ''paths'') (\<lambda>paths''.
     and_then (py_index paths'' ''venv_dir'') (\<lambda>venv.
     and_then (path_join venv) (\<lambda>venv_dir.
       Inr (state_dir, logs_dir, venv_dir))))))))))))"

definition load_maintenance_config :: "bool \<Rightarrow> json option \<Rightarrow> error + maintenance_config" where
  "load_maintenance_config test config_file =
     (case config_file of
        None \<Rightarrow> Inl (SystemExit 1)
      | Some config \<Rightarrow>
          and_then (telegram_get config ''bot_token'') (\<lambda>bot_token.
          and_then (telegram_get config ''chat_id'') (\<lambda>chat_id.
          and_then (maintenance_paths config) (\<lambda>(state_dir, logs_dir, venv_dir).
            Inr \<lparr>TEST_MODE = (if \<not> truthy bot_token \<or> \<not> truthy chat_id then True else test),
                 BOT_TOKEN = bot_token, CHAT_ID = chat_id,
                 STATE_DIR = state_dir, LOGS_DIR = logs_dir, VENV_DIR = venv_dir\<rparr>))))"

definition maintenance_load_state :: "json dict option \<Rightarrow> json dict" where
  "maintenance_load_state state_file = (case state_file of Some state \<Rightarrow> state | None \<Rightarrow> [])"

text \<open>The task dispatch: the \<open>results\<close> dictionary, one entry per task that ran.\<close>

definition dispatch :: "string \<Rightarrow> (string \<Rightarrow> popen_outcome) \<Rightarrow> (bool \<times> string) dict" where
  "dispatch TASK shell =
     (if TASK = ''all'' then
        fold (\<lambda>(t_name, func). dict_set t_name (func shell)) tasks_to_run []
      else
        (case map_of tasks_to_run TASK of
           Some func \<Rightarrow> dict_set TASK (func shell) []
         | None \<Rightarrow> []))"

text \<open>The record written for a task.\<close>

definition task_record :: "string \<Rightarrow> bool \<Rightarrow> string \<Rightarrow> json" where
  "task_record last_run success output =
     JObj [(''last_run'', JStr last_run), (''success'', JBool success), (''output'', JStr output)]"

text \<open>
  The state update loop; \<open>now task_name\<close> is the time at which the record of
  \<open>task_name\<close> is written.
\<close>

definition update_state :: "(string \<Rightarrow> string) \<Rightarrow> (bool \<times> string) dict \<Rightarrow> json dict \<Rightarrow> json dict" where
  "update_state now results state =
     fold (\<lambda>(task_name, result).
             dict_set task_name (task_record (now task_name) (fst result) (snd result)))
       results state"

text \<open>
  A summary line is a task name with its success; it is printed as the name, a colon and
  \<^verbatim>\<open>Success\<close> or \<^verbatim>\<open>Failed\<close> after an emoji.
\<close>

definition summary_lines :: "(bool \<times> string) dict \<Rightarrow> (string \<times> bool) list" where
  "summary_lines results = map (\<lambda>(t, r). (t, fst r)) results"

definition summary_text :: "string \<times> bool \<Rightarrow> string" where
  "summary_text line = fst line @ '': '' @ (if snd line then ''Success'' else ''Failed'')"

text \<open>The values that \<^verbatim>\<open>argparse\<close> accepts for \<^verbatim>\<open>--task\<close>.\<close>

definition task_choices :: "string list" where
  "task_choices = [''all'', ''os_update'', ''gravity'', ''pihole_update'', ''clear_logs'']"

text \<open>
  The whole script.  \<^verbatim>\<open>parse_args\<close> exits with status 2 on a task outside the choices,
  before the configuration is read.  The result is the error that ended the script or
  the summary lines with whether the summary was posted to Telegram (\<open>TEST_MODE\<close> off),
  and the state file afterwards.
\<close>

definition maintenance_script ::
  "string \<Rightarrow> bool \<Rightarrow> json option \<Rightarrow> (string \<Rightarrow> popen_outcome) \<Rightarrow> (string \<Rightarrow> string)
     \<Rightarrow> json dict option \<Rightarrow> (error + (string \<times> bool) list \<times> bool) \<times> json dict option" where
  "maintenance_script TASK test config_file shell now state_file =
     (if TASK \<notin> set task_choices then (Inl (SystemExit 2), state_file)
      else
        (case load_maintenance_config test config_file of
           Inl e \<Rightarrow> (Inl e, state_file)
         | Inr cfg \<Rightarrow>
             (let state = maintenance_load_state state_file;
                  results = dispatch TASK shell;
                  state' = update_state now results state
              in (Inr (summary_lines results, \<not> TEST_MODE cfg), Some state'))))"

section \<open>The configuration blocks of the other scripts\<close>

text \<open>down\_alert.py: a missing file raises, the credentials and paths are subscripted.\<close>

definition down_alert_paths :: "json \<Rightarrow> error + string \<times> string" where
  "down_alert_paths config =
     and_then (py_index config ''paths'') (\<lambda>paths.
     and_then (py_index paths ''down_alert'') (\<lambda>DOWN_ALERT_PATHS.
     and_then (py_index DOWN_ALERT_PATHS ''logs'') (\<lambda>logs.
     and_then (path_join logs) (\<lambda>logs_dir.
     and_then (py_index DOWN_ALERT_PATHS ''state'') (\<lambda>state.
     and_then (path_join state) (\<lambda>state_dir.
       Inr (logs_dir, state_dir)))))))"

definition load_down_alert_config :: "json option \<Rightarrow> error + json \<times> json \<times> string \<times> string" where
  "load_down_alert_config config_file =
     (case config_file of
        None \<Rightarrow> Inl FileNotFoundError
      | Some config \<Rightarrow>
          and_then (telegram_index config ''bot_token'') (\<lambda>bot_token.
          and_then (telegram_index config ''chat_id'') (\<lambda>chat_id.
          and_then (down_alert_paths config) (\<lambda>(logs_dir, state_dir).
            Inr (bot_token, chat_id, logs_dir, state_dir)))))"

text \<open>
  The whole of down\_alert.py: the configuration block, then the main logic on the
  observed pair.  The result is the error (if any), the alerts and the state file
  afterwards.
\<close>

definition down_alert_script ::
  "json option \<Rightarrow> bool \<times> bool \<Rightarrow> json dict option \<Rightarrow> error option \<times> alert list \<times> json dict option" where
  "down_alert_script config_file obs state_file =
     (case load_down_alert_config config_file of
        Inl e \<Rightarrow> (Some e, [], state_file)
      | Inr cfg \<Rightarrow> (None, main_logic state_file obs))"

text \<open>monitor.py: a missing file exits with status 1; everything else is read with \<^verbatim>\<open>get\<close>.\<close>

definition monitor_paths :: "json \<Rightarrow> error + string \<times> string" where
  "monitor_paths config =
     and_then (py_get config ''paths'' (JObj [])) (\<lambda>paths.
     and_then (py_get paths ''monitor'' (JObj [])) (\<lambda>MONITOR_CONFIG.
     and_then (py_get MONITOR_CONFIG ''logs'' (JStr [])) (\<lambda>logs.
     and_then (path_join logs) (\<lambda>logs_dir.
     and_then (py_get MONITOR_CONFIG ''state'' (JStr [])) (\<lambda>state.
     and_then (path_join state) (\<lambda>state_dir.
       Inr (logs_dir, state_dir)))))))"

definition load_monitor_config :: "json option \<Rightarrow> error + json \<times> json \<times> string \<times> string" where
  "load_monitor_config config_file =
     (case config_file of
        None \<Rightarrow> Inl (SystemExit 1)
      | Some config \<Rightarrow>
          and_then (telegram_get config ''bot_token'') (\<lambda>bot_token.
          and_then (telegram_get config ''chat_id'') (\<lambda>chat_id.
          and_then (monitor_paths config) (\<lambda>(logs_dir, state_dir).
            Inr (bot_token, chat_id, logs_dir, state_dir)))))"

text \<open>What \<open>send_telegram\<close> of monitor.py does with a message.\<close>

datatype delivery = Logged | Skipped | Posted

definition send_telegram :: "bool \<Rightarrow> json \<Rightarrow> json \<Rightarrow> delivery" where
  "send_telegram test bot_token chat_id =
     (if test then Logged
      else if \<not> truthy bot_token \<or> \<not> truthy chat_id then Skipped
      else Posted)"

definition monitor_script ::
  "bool \<Rightarrow> bool \<Rightarrow> json option \<Rightarrow> (string \<times> real option) list \<Rightarrow> string \<Rightarrow> json dict option
     \<Rightarrow> error option \<times> (msg_line list \<times> delivery) option \<times> json dict option" where
  "monitor_script test FORCE_CHECK config_file metrics now state_file =
     (case load_monitor_config config_file of
        Inl e \<Rightarrow> (Some e, None, state_file)
      | Inr (bot_token, chat_id, logs_dir, state_dir) \<Rightarrow>
          (case monitor_main FORCE_CHECK metrics now state_file of
             (err, sent, state_file') \<Rightarrow>
               (err, map_option (\<lambda>msg. (msg, send_telegram test bot_token chat_id)) sent,
                state_file')))"

text \<open>
  monitor\_bot.py: the configuration file and the bot token (lines 28--38).  The checks
  of the paths that follow can only raise further errors.
\<close>

definition load_bot_token :: "json option \<Rightarrow> error + json" where
  "load_bot_token config_file =
     (case config_file of
        None \<Rightarrow> Inl FileNotFoundError
      | Some config \<Rightarrow>
          and_then (telegram_get config ''bot_token'') (\<lambda>bot_token.
            if \<not> truthy bot_token then Inl ValueError else Inr bot_token))"


section \<open>monitor\_bot.py: the handlers\<close>

text \<open>
  The outcome of running a child process to completion: its return code, standard
  output and standard error, or an exception.
\<close>

datatype run_outcome = Completed int string string | RunRaised string

definition run_live_check :: "run_outcome \<Rightarrow> bool" where
  "run_live_check outcome =
     (case outcome of
        Completed returncode out err \<Rightarrow> (if returncode \<noteq> 0 then False else True)
      | RunRaised e \<Rightarrow> False)"

definition load_monitor_state :: "json dict option \<Rightarrow> json dict" where
  "load_monitor_state state_file = (case state_file of Some state \<Rightarrow> state | None \<Rightarrow> [])"

text \<open>
  The replies of the status command.  The metrics reply carries the last check time and
  the four values it prints, each \<^verbatim>\<open>N/A\<close> when absent.
\<close>

datatype reply =
    StaleWarning
  | NoState
  | Metrics json json json json json

definition format_metrics :: "json dict \<Rightarrow> error + reply" where
  "format_metrics state =
     (let metrics = dict_get_default state ''metrics'' (JObj []);
          last_check = dict_get_default state ''last_check'' (JStr ''N/A'')
      in and_then (py_get metrics ''cpu'' (JStr ''N/A'')) (\<lambda>cpu.
         and_then (py_get metrics ''ram'' (JStr ''N/A'')) (\<lambda>ram.
         and_then (py_get metrics ''disk'' (JStr ''N/A'')) (\<lambda>disk.
         and_then (py_get metrics ''temp'' (JStr ''N/A'')) (\<lambda>temp.
           Inr (Metrics last_check cpu ram disk temp))))))"

text \<open>
  \<open>status_command\<close>, given the outcome of the forced check and the monitor state file
  as it is after that check: the replies sent, and the error if formatting raises.
\<close>

definition status_command :: "run_outcome \<Rightarrow> json dict option \<Rightarrow> reply list \<times> error option" where
  "status_command outcome state_file =
     (let success = run_live_check outcome;
          replies = (if \<not> success then [StaleWarning] else []);
          state = load_monitor_state state_file
      in if state = [] then (replies @ [NoState], None)
         else (case format_metrics state of
                 Inl e \<Rightarrow> (replies, Some e)
               | Inr m \<Rightarrow> (replies @ [m], None)))"

definition load_maint_state :: "json dict option \<Rightarrow> json dict" where
  "load_maint_state state_file = (case state_file of Some state \<Rightarrow> state | None \<Rightarrow> [])"

definition save_maint_state :: "string \<Rightarrow> string \<Rightarrow> bool \<Rightarrow> string \<Rightarrow> json dict option \<Rightarrow> json dict option" where
  "save_maint_state now task_name success output state_file =
     Some (dict_set task_name (task_record now success output) (load_maint_state state_file))"

text \<open>\<open>log_task\<close> returns the name of the log file it wrote.\<close>

definition log_task :: "string \<Rightarrow> string \<Rightarrow> string" where
  "log_task timestamp task_name = task_name @ ''_'' @ timestamp @ ''.log''"

text \<open>
  \<open>run_task\<close>, given the outcome of the child process, the time stamps and the
  maintenance state file as the child left it: the triple returned and the state file
  afterwards.
\<close>

definition run_task ::
  "run_outcome \<Rightarrow> string \<Rightarrow> string \<Rightarrow> string \<Rightarrow> json dict option
     \<Rightarrow> (bool \<times> string \<times> string) \<times> json dict option" where
  "run_task outcome timestamp now task state_file =
     (case outcome of
        Completed returncode out err \<Rightarrow>
          (let output = strip out @ (if err \<noteq> [] then [CHR 0x0A] @ strip err else []);
               success = (returncode = 0)
           in ((success, output, log_task timestamp task),
               save_maint_state now task success output state_file))
      | RunRaised e \<Rightarrow>
          ((False, e, log_task timestamp task), save_maint_state now task False e state_file))"



section \<open>Notions used to state and prove the properties\<close>

text \<open>
  A sample can be evaluated without a \<^verbatim>\<open>TypeError\<close> when every sampled number belongs
  to a metric that has a threshold.
\<close>

definition thresholds_known :: "(string \<times> real option) list \<Rightarrow> bool" where
  "thresholds_known metrics =
     list_all (\<lambda>kv. snd kv = None \<or> map_of THRESHOLDS (fst kv) \<noteq> None) metrics"

text \<open>
  What one entry of the sample contributes to the three results of \<open>check_alerts\<close>:
  whether it asks for the notification, its flag, and its line of the message; and
  whether the loop gets past the entry without raising.
\<close>

definition contributes :: "bool \<Rightarrow> json \<Rightarrow> string \<times> real option \<Rightarrow> bool" where
  "contributes F prev kv =
     (breaches (fst kv) (snd kv) \<and>
      (F \<or> (case py_get prev (fst kv) (JBool False) of Inl e \<Rightarrow> False | Inr flag \<Rightarrow> \<not> truthy flag)))"

definition flag_entry :: "string \<times> real option \<Rightarrow> string \<times> json" where
  "flag_entry kv = (fst kv, JBool (breaches (fst kv) (snd kv)))"

definition breach_line :: "string \<times> real option \<Rightarrow> msg_line list" where
  "breach_line kv =
     (case (snd kv, map_of THRESHOLDS (fst kv)) of
        (Some x, Some t) \<Rightarrow> if x > t then [Breach (fst kv) x t] else []
      | _ \<Rightarrow> [])"

definition entry_ok :: "bool \<Rightarrow> json \<Rightarrow> string \<times> real option \<Rightarrow> bool" where
  "entry_ok F prev kv =
     (case snd kv of
        None \<Rightarrow> True
      | Some x \<Rightarrow>
          (case map_of THRESHOLDS (fst kv) of
             None \<Rightarrow> False
           | Some t \<Rightarrow> x > t \<longrightarrow> F \<or> (\<exists>p. prev = JObj p)))"

text \<open>
  In a sequence of samples no metric starts to breach after the first sample: a metric
  that breaches in a sample already breached in the sample before it.
\<close>

fun no_new_breach :: "(string \<times> real option) list list \<Rightarrow> bool" where
  "no_new_breach (m1 # m2 # rest) =
     ((\<forall>kv\<in>set m2. breaches (fst kv) (snd kv) \<longrightarrow> (\<exists>v. (fst kv, v) \<in> set m1 \<and> breaches (fst kv) v))
      \<and> no_new_breach (m2 # rest))"
| "no_new_breach _ = True"

text \<open>Every breaching metric of a sample already has its flag set.\<close>

definition covered :: "json dict \<Rightarrow> (string \<times> real option) list \<Rightarrow> bool" where
  "covered flags ms =
     (\<forall>kv\<in>set ms. breaches (fst kv) (snd kv) \<longrightarrow> truthy (dict_get_default flags (fst kv) (JBool False)))"

text \<open>
  A credential is absent from a configuration when the configuration has no
  \<^verbatim>\<open>telegram\<close> section, or has one without the key; it is present when the section
  has the key, whatever the value.
\<close>

definition credential_absent :: "json \<Rightarrow> string \<Rightarrow> bool" where
  "credential_absent config key =
     (case config of
        JObj c \<Rightarrow>
          (case map_of c ''telegram'' of
             None \<Rightarrow> True
           | Some (JObj telegram) \<Rightarrow> map_of telegram key = None
           | Some _ \<Rightarrow> False)
      | _ \<Rightarrow> False)"

definition credential_present :: "json \<Rightarrow> string \<Rightarrow> bool" where
  "credential_present config key =
     (case config of
        JObj c \<Rightarrow>
          (case map_of c ''telegram'' of
             Some (JObj telegram) \<Rightarrow> map_of telegram key \<noteq> None
           | _ \<Rightarrow> False)
      | _ \<Rightarrow> False)"

text \<open>
  A credential is missing in the sense of the scripts' own test (\<^verbatim>\<open>not BOT_TOKEN\<close>,
  \<^verbatim>\<open>not CHAT_ID\<close>): it is absent, or its value is null, empty, zero or false.
\<close>

definition credential_missing :: "json \<Rightarrow> string \<Rightarrow> bool" where
  "credential_missing config key =
     (case config of
        JObj c \<Rightarrow>
          (case map_of c ''telegram'' of
             None \<Rightarrow> True
           | Some (JObj telegram) \<Rightarrow>
               (case map_of telegram key of None \<Rightarrow> True | Some v \<Rightarrow> \<not> truthy v)
           | Some _ \<Rightarrow> False)
      | _ \<Rightarrow> False)"

text \<open>A forced check failed: the child process raised or returned a non-zero code.\<close>

definition live_check_failed :: "run_outcome \<Rightarrow> bool" where
  "live_check_failed outcome =
     (case outcome of Completed returncode out err \<Rightarrow> returncode \<noteq> 0 | RunRaised e \<Rightarrow> True)"

text \<open>
  Example inputs: a configuration with all paths and no \<^verbatim>\<open>telegram\<close> section, the same
  with credentials and with empty credentials, two clocks, and two environments: one in
  which only the Pi-hole update fails, and one that also tells the four commands apart.
\<close>

definition example_paths :: json where
  "example_paths =
     JObj [(''maintenance'', JObj [(''state'', JStr ''maintenance/state''), (''logs'', JStr ''maintenance/logs'')]),
           (''monitor'', JObj [(''state'', JStr ''monitor/state''), (''logs'', JStr ''monitor/logs'')]),
           (''down_alert'', JObj [(''state'', JStr ''down_alert/state''), (''logs'', JStr ''down_alert/logs'')]),
           (''venv_dir'', JStr ''venv'')]"

definition config_without_credentials :: json where
  "config_without_credentials = JObj [(''paths'', example_paths)]"

definition config_with_credentials :: json where
  "config_with_credentials =
     JObj [(''telegram'', JObj [(''bot_token'', JStr ''123:abc''), (''chat_id'', JStr ''42'')]),
           (''paths'', example_paths)]"

definition config_with_empty_credentials :: json where
  "config_with_empty_credentials =
     JObj [(''telegram'', JObj [(''bot_token'', JStr []), (''chat_id'', JNull)]),
           (''paths'', example_paths)]"

definition task_clock :: "string \<Rightarrow> string" where
  "task_clock task_name =
     (if task_name = ''os_update'' then ''2026-01-01T03:04:00''
      else if task_name = ''pihole_update'' then ''2026-01-01T03:05:00''
      else if task_name = ''gravity'' then ''2026-01-01T03:06:00''
      else ''2026-01-01T03:07:00'')"

definition command_shell :: "string \<Rightarrow> popen_outcome" where
  "command_shell cmd =
     (if cmd = ''sudo apt update && sudo apt upgrade -y'' then Finished 0 [''0 upgraded'']
      else if cmd = ''sudo pihole -up'' then Finished 1 [''update failed'']
      else if cmd = ''sudo pihole -g'' then Finished 0 [''gravity built'']
      else if cmd = ''sudo pihole flush'' then Finished 0 [''logs flushed'']
      else PopenRaised ''command not found'')"

definition example_clock :: "string \<Rightarrow> string" where
  "example_clock task_name = ''2026-01-01T03:00:00''"

definition example_shell :: "string \<Rightarrow> popen_outcome" where
  "example_shell cmd =
     (if cmd = ''sudo pihole -up'' then Finished 1 [''update failed'']
      else Finished 0 [''done''])"



section \<open>Properties of the dictionary operations\<close>

lemma map_of_dict_set: "map_of (dict_set k v d) = (map_of d)(k \<mapsto> v)"
  by (induction d) (auto simp: fun_eq_iff)

lemma dict_get_dict_set: "dict_get (dict_set k v d) k' = (if k' = k then v else dict_get d k')"
  by (simp add: dict_get_def map_of_dict_set)

lemma keys_dict_set:
  "map fst (dict_set k v d) = (if k \<in> fst ` set d then map fst d else map fst d @ [k])"
  by (induction d) force+

lemma distinct_dict_set: "distinct (map fst d) \<Longrightarrow> distinct (map fst (dict_set k v d))"
  by (simp add: keys_dict_set)

lemma dict_set_fresh: "k \<notin> fst ` set al \<Longrightarrow> dict_set k v al = al @ [(k, v)]"
  by (induction al) auto

lemma fold_dict_set_distinct:
  "distinct (map fst ms) \<Longrightarrow> fst ` set ms \<inter> fst ` set al = {} \<Longrightarrow>
     fold (\<lambda>kv. dict_set (fst kv) (g kv)) ms al = al @ map (\<lambda>kv. (fst kv, g kv)) ms"
proof (induction ms arbitrary: al)
  case Nil then show ?case by simp
next
  case (Cons kv ms)
  have fresh: "fst kv \<notin> fst ` set al" using Cons.prems(2) by auto
  have d: "distinct (map fst ms)" using Cons.prems(1) by simp
  have "fst ` set ms \<inter> fst ` set (al @ [(fst kv, g kv)]) = {}"
    using Cons.prems by auto
  from Cons.IH[OF d this] fresh show ?case by (simp add: dict_set_fresh)
qed

lemma map_of_fold_other:
  "k \<notin> fst ` set ms \<Longrightarrow> map_of (fold (\<lambda>kv. dict_set (fst kv) (g kv)) ms al) k = map_of al k"
  by (induction ms arbitrary: al) (auto simp: map_of_dict_set)

lemma map_of_fold_const:
  "k \<in> fst ` set ms \<Longrightarrow> \<forall>kv\<in>set ms. fst kv = k \<longrightarrow> g kv = c \<Longrightarrow>
     map_of (fold (\<lambda>kv. dict_set (fst kv) (g kv)) ms al) k = Some c"
proof (induction ms arbitrary: al)
  case Nil then show ?case by simp
next
  case (Cons kv ms al)
  show ?case
  proof (cases "k \<in> fst ` set ms")
    case True
    with Cons show ?thesis by simp
  next
    case False
    with Cons.prems have "fst kv = k" "g kv = c" by auto
    with False show ?thesis by (simp add: map_of_fold_other map_of_dict_set)
  qed
qed


section \<open>down\_alert.py: one alert per transition\<close>

lemma main_logic_service:
  "service_alerts (fst (main_logic f obs)) = (if service_differs f (fst obs) then 1 else 0)"
  by (cases obs) (simp add: main_logic_def pihole_check_def internet_check_def service_alerts_def
      service_differs_def Let_def split: prod.splits)

lemma main_logic_internet:
  "internet_alerts (fst (main_logic f obs)) = (if internet_differs f (snd obs) then 1 else 0)"
  by (cases obs) (simp add: main_logic_def pihole_check_def internet_check_def internet_alerts_def
      internet_differs_def Let_def dict_get_dict_set split: prod.splits)

lemma main_logic_settles_service:
  "\<not> service_differs (snd (main_logic f obs)) (fst obs)"
  by (simp add: main_logic_def pihole_check_def internet_check_def service_differs_def
      load_state_def save_state_def py_eq_str_def Let_def dict_get_dict_set split: prod.splits)

lemma main_logic_settles_internet:
  "\<not> internet_differs (snd (main_logic f obs)) (snd obs)"
  by (simp add: main_logic_def pihole_check_def internet_check_def internet_differs_def
      load_state_def save_state_def py_eq_bool_def Let_def dict_get_dict_set split: prod.splits)

lemma runs_Cons:
  "runs f (ob # rest) =
     (fst (main_logic f ob) # fst (runs (snd (main_logic f ob)) rest),
      snd (runs (snd (main_logic f ob)) rest))"
  by (simp split: prod.splits)

lemma runs_length: "length (fst (runs f obs)) = length obs"
  by (induction obs arbitrary: f) (simp_all add: runs_Cons del: runs.simps(2))

lemma runs_nth:
  "i < length obs \<Longrightarrow> fst (runs f obs) ! i = fst (main_logic (snd (runs f (take i obs))) (obs ! i))"
proof (induction obs arbitrary: f i)
  case Nil then show ?case by simp
next
  case (Cons o1 rest)
  show ?case
  proof (cases i)
    case 0 then show ?thesis by (simp add: runs_Cons del: runs.simps(2))
  next
    case (Suc j)
    with Cons.prems have "j < length rest" by simp
    from Cons.IH[OF this] Suc show ?thesis by (simp add: runs_Cons del: runs.simps(2))
  qed
qed

lemma runs_replicate_settled_service:
  "\<not> service_differs f p \<Longrightarrow>
     sum_list (map service_alerts (fst (runs f (replicate n (p, q))))) = 0
     \<and> \<not> service_differs (snd (runs f (replicate n (p, q)))) p"
proof (induction n arbitrary: f)
  case 0 then show ?case by simp
next
  case (Suc n)
  have "\<not> service_differs (snd (main_logic f (p, q))) p"
    using main_logic_settles_service[of f "(p, q)"] by simp
  from Suc.IH[OF this] Suc.prems show ?case
    using main_logic_service[of f "(p, q)"]
    by (simp add: runs_Cons del: runs.simps(2))
qed

lemma runs_replicate_service:
  "sum_list (map service_alerts (fst (runs f (replicate n (p, q))))) =
     (if 0 < n \<and> service_differs f p then 1 else 0)"
proof (cases n)
  case 0 then show ?thesis by simp
next
  case (Suc m)
  have s: "\<not> service_differs (snd (main_logic f (p, q))) p"
    using main_logic_settles_service[of f "(p, q)"] by simp
  show ?thesis
    using runs_replicate_settled_service[OF s, of m q] main_logic_service[of f "(p, q)"] Suc
    by (simp add: runs_Cons del: runs.simps(2))
qed

lemma runs_replicate_settled_internet:
  "\<not> internet_differs f q \<Longrightarrow>
     sum_list (map internet_alerts (fst (runs f (replicate n (p, q))))) = 0
     \<and> \<not> internet_differs (snd (runs f (replicate n (p, q)))) q"
proof (induction n arbitrary: f)
  case 0 then show ?case by simp
next
  case (Suc n)
  have "\<not> internet_differs (snd (main_logic f (p, q))) q"
    using main_logic_settles_internet[of f "(p, q)"] by simp
  from Suc.IH[OF this] Suc.prems show ?case
    using main_logic_internet[of f "(p, q)"]
    by (simp add: runs_Cons del: runs.simps(2))
qed

lemma runs_replicate_internet:
  "sum_list (map internet_alerts (fst (runs f (replicate n (p, q))))) =
     (if 0 < n \<and> internet_differs f q then 1 else 0)"
proof (cases n)
  case 0 then show ?thesis by simp
next
  case (Suc m)
  have s: "\<not> internet_differs (snd (main_logic f (p, q))) q"
    using main_logic_settles_internet[of f "(p, q)"] by simp
  show ?thesis
    using runs_replicate_settled_internet[OF s, of m p] main_logic_internet[of f "(p, q)"] Suc
    by (simp add: runs_Cons del: runs.simps(2))
qed

lemma runs_replicate_later:
  assumes "0 < m"
  shows "\<not> service_differs (snd (runs f (replicate m (p, q)))) p"
    and "\<not> internet_differs (snd (runs f (replicate m (p, q)))) q"
proof -
  from assms obtain n where m: "m = Suc n" by (cases m) auto
  have s: "\<not> service_differs (snd (main_logic f (p, q))) p"
    using main_logic_settles_service[of f "(p, q)"] by simp
  have i: "\<not> internet_differs (snd (main_logic f (p, q))) q"
    using main_logic_settles_internet[of f "(p, q)"] by simp
  show "\<not> service_differs (snd (runs f (replicate m (p, q)))) p"
    using runs_replicate_settled_service[OF s, of n q]
    by (simp add: m runs_Cons del: runs.simps(2))
  show "\<not> internet_differs (snd (runs f (replicate m (p, q)))) q"
    using runs_replicate_settled_internet[OF i, of n p]
    by (simp add: m runs_Cons del: runs.simps(2))
qed

lemma runs_replicate_nth:
  assumes "i < n"
  shows "service_alerts (fst (runs f (replicate n (p, q))) ! i)
           = (if i = 0 \<and> service_differs f p then 1 else 0)"
    and "internet_alerts (fst (runs f (replicate n (p, q))) ! i)
           = (if i = 0 \<and> internet_differs f q then 1 else 0)"
proof -
  have nth: "fst (runs f (replicate n (p, q))) ! i
               = fst (main_logic (snd (runs f (replicate i (p, q)))) (p, q))"
    using runs_nth[of i "replicate n (p, q)" f] assms by (simp add: min_def)
  show "service_alerts (fst (runs f (replicate n (p, q))) ! i)
           = (if i = 0 \<and> service_differs f p then 1 else 0)"
  proof (cases "i = 0")
    case True
    then show ?thesis using nth main_logic_service[of f "(p, q)"] by simp
  next
    case False
    then have "\<not> service_differs (snd (runs f (replicate i (p, q)))) p"
      using runs_replicate_later(1)[of i f p q] by simp
    with False show ?thesis
      using main_logic_service[of "snd (runs f (replicate i (p, q)))" "(p, q)"] by (simp add: nth)
  qed
  show "internet_alerts (fst (runs f (replicate n (p, q))) ! i)
           = (if i = 0 \<and> internet_differs f q then 1 else 0)"
  proof (cases "i = 0")
    case True
    then show ?thesis using nth main_logic_internet[of f "(p, q)"] by simp
  next
    case False
    then have "\<not> internet_differs (snd (runs f (replicate i (p, q)))) q"
      using runs_replicate_later(2)[of i f p q] by simp
    with False show ?thesis
      using main_logic_internet[of "snd (runs f (replicate i (p, q)))" "(p, q)"] by (simp add: nth)
  qed
qed

text \<open>
  Claim C1.  In any sequence of runs, each reading the state file the previous run
  wrote, a run sends exactly one alert for a domain (service, internet) when the status
  derived from its observation differs from the status persisted just before it, and none
  otherwise.  When the same observation is repeated \<open>n\<close> times, only the first run can
  alert: the total for a domain is one when the observation differs from the status
  persisted before the first run (and \<open>n > 0\<close>), and zero otherwise; it is never \<open>n\<close>.
\<close>

theorem no_duplicate_alert:
  "(\<forall>i<length obs.
       service_alerts (fst (runs f obs) ! i)
         = (if service_differs (snd (runs f (take i obs))) (fst (obs ! i)) then 1 else 0)
     \<and> internet_alerts (fst (runs f obs) ! i)
         = (if internet_differs (snd (runs f (take i obs))) (snd (obs ! i)) then 1 else 0))
   \<and> (\<forall>i<n.
       service_alerts (fst (runs f (replicate n (p, q))) ! i)
         = (if i = 0 \<and> service_differs f p then 1 else 0)
     \<and> internet_alerts (fst (runs f (replicate n (p, q))) ! i)
         = (if i = 0 \<and> internet_differs f q then 1 else 0))
   \<and> sum_list (map service_alerts (fst (runs f (replicate n (p, q)))))
       = (if 0 < n \<and> service_differs f p then 1 else 0)
   \<and> sum_list (map internet_alerts (fst (runs f (replicate n (p, q)))))
       = (if 0 < n \<and> internet_differs f q then 1 else 0)"
proof (intro conjI allI impI)
  fix i assume "i < length obs"
  then have nth: "fst (runs f obs) ! i = fst (main_logic (snd (runs f (take i obs))) (obs ! i))"
    by (rule runs_nth)
  show "service_alerts (fst (runs f obs) ! i)
         = (if service_differs (snd (runs f (take i obs))) (fst (obs ! i)) then 1 else 0)"
    unfolding nth by (rule main_logic_service)
  show "internet_alerts (fst (runs f obs) ! i)
         = (if internet_differs (snd (runs f (take i obs))) (snd (obs ! i)) then 1 else 0)"
    unfolding nth by (rule main_logic_internet)
next
  fix i assume "i < n"
  then show "service_alerts (fst (runs f (replicate n (p, q))) ! i)
         = (if i = 0 \<and> service_differs f p then 1 else 0)"
    by (rule runs_replicate_nth(1))
  from \<open>i < n\<close> show "internet_alerts (fst (runs f (replicate n (p, q))) ! i)
         = (if i = 0 \<and> internet_differs f q then 1 else 0)"
    by (rule runs_replicate_nth(2))
next
  show "sum_list (map service_alerts (fst (runs f (replicate n (p, q)))))
       = (if 0 < n \<and> service_differs f p then 1 else 0)"
    by (rule runs_replicate_service)
  show "sum_list (map internet_alerts (fst (runs f (replicate n (p, q)))))
       = (if 0 < n \<and> internet_differs f q then 1 else 0)"
    by (rule runs_replicate_internet)
qed

theorem no_duplicate_alert_witness:
  "(2::nat) < length [(False, True), (False, True), (True, True)]
   \<and> service_alerts (fst (runs None [(False, True), (False, True), (True, True)]) ! 2) = 1
   \<and> internet_alerts (fst (runs None [(False, True), (False, True), (True, True)]) ! 2) = 0
   \<and> (1::nat) < 3
   \<and> service_alerts (fst (runs None (replicate 3 (False, True))) ! 1) = 0
   \<and> sum_list (map service_alerts (fst (runs None (replicate 3 (False, True))))) = 1
   \<and> sum_list (map internet_alerts (fst (runs None (replicate 3 (False, True))))) = 0"
proof -
  have d: "service_differs None False" "\<not> internet_differs None True"
    by (simp_all add: service_differs_def internet_differs_def load_state_def dict_get_def
        py_eq_str_def py_eq_bool_def status_label_def)
  have b: "service_differs (snd (runs None (take 2 [(False, True), (False, True), (True, True)]))) True"
    "\<not> internet_differs (snd (runs None (take 2 [(False, True), (False, True), (True, True)]))) True"
    by (simp_all add: service_differs_def internet_differs_def load_state_def save_state_def
        dict_get_def py_eq_str_def py_eq_bool_def status_label_def main_logic_def
        pihole_check_def internet_check_def Let_def)
  from no_duplicate_alert[of "[(False, True), (False, True), (True, True)]" None 3 False True]
  have all: "(\<forall>i<3. service_alerts (fst (runs None [(False, True), (False, True), (True, True)]) ! i)
          = (if service_differs (snd (runs None (take i [(False, True), (False, True), (True, True)])))
                (fst ([(False, True), (False, True), (True, True)] ! i)) then 1 else 0)
        \<and> internet_alerts (fst (runs None [(False, True), (False, True), (True, True)]) ! i)
          = (if internet_differs (snd (runs None (take i [(False, True), (False, True), (True, True)])))
                (snd ([(False, True), (False, True), (True, True)] ! i)) then 1 else 0))"
    and rep: "\<forall>i<3. service_alerts (fst (runs None (replicate 3 (False, True))) ! i)
          = (if i = 0 \<and> service_differs None False then 1 else 0)
        \<and> internet_alerts (fst (runs None (replicate 3 (False, True))) ! i)
          = (if i = 0 \<and> internet_differs None True then 1 else 0)"
    and tot: "sum_list (map service_alerts (fst (runs None (replicate 3 (False, True)))))
          = (if (0::nat) < 3 \<and> service_differs None False then 1 else 0)"
      "sum_list (map internet_alerts (fst (runs None (replicate 3 (False, True)))))
          = (if (0::nat) < 3 \<and> internet_differs None True then 1 else 0)"
    by simp_all
  have two: "(2::nat) < 3" and one: "(1::nat) < 3" by simp_all
  from all[rule_format, OF two] b
  have "service_alerts (fst (runs None [(False, True), (False, True), (True, True)]) ! 2) = 1"
    "internet_alerts (fst (runs None [(False, True), (False, True), (True, True)]) ! 2) = 0"
    by simp_all
  moreover from rep[rule_format, OF one]
  have "service_alerts (fst (runs None (replicate 3 (False, True))) ! 1) = 0" by simp
  ultimately show ?thesis using tot d by simp
qed

text \<open>
  Claim C4.  Without a state file the state is the default one, with status
  \<^verbatim>\<open>unknown\<close> and the internet reachable.  A first run that observes the internet up
  sends no internet alert, and a first run sends exactly one service alert whether the
  service is observed up or down.
\<close>

theorem first_run:
  "load_state None = [(''pihole_status'', JStr ''unknown''), (''internet'', JBool True)]
   \<and> internet_alerts (fst (main_logic None (p, True))) = 0
   \<and> fst (main_logic None (p, True)) = [if p then PiholeBackUp else PiholeDown]
   \<and> service_alerts (fst (main_logic None (p, q))) = 1"
  by (simp add: load_state_def main_logic_def pihole_check_def internet_check_def
      internet_alerts_def service_alerts_def py_eq_str_def py_eq_bool_def dict_get_def
      status_label_def dict_get_dict_set Let_def)

theorem first_run_witness:
  "fst (main_logic None (False, True)) = [PiholeDown]
   \<and> fst (main_logic None (True, True)) = [PiholeBackUp]
   \<and> service_alerts (fst (main_logic None (True, False))) = 1
   \<and> internet_alerts (fst (main_logic None (True, False))) = 1"
  using first_run[of False True] first_run[of True True] first_run[of True False]
  by (simp add: main_logic_def pihole_check_def internet_check_def internet_alerts_def
      load_state_def py_eq_str_def py_eq_bool_def dict_get_def status_label_def Let_def)


section \<open>monitor.py: the threshold evaluation\<close>

lemma loop_result:
  "check_alerts_loop F prev ms (s, al, ml) = Inr (s', al', ml') \<Longrightarrow>
     s' = (s \<or> (\<exists>kv\<in>set ms. contributes F prev kv)) \<and>
     al' = fold (\<lambda>kv. dict_set (fst kv) (snd (flag_entry kv))) ms al \<and>
     ml' = ml @ concat (map breach_line ms)"
proof (induction ms arbitrary: s al ml)
  case Nil then show ?case by simp
next
  case (Cons kv ms s al ml)
  obtain k v where kv: "kv = (k, v)" by (cases kv)
  show ?case
  proof (cases v)
    case None
    with Cons.prems kv
    have "check_alerts_loop F prev ms (s, dict_set k (JBool False) al, ml) = Inr (s', al', ml')"
      by simp
    from Cons.IH[OF this] None kv show ?thesis
      by (simp add: contributes_def flag_entry_def breach_line_def breaches_def)
  next
    case (Some x)
    show ?thesis
    proof (cases "map_of THRESHOLDS k")
      case None
      with Cons.prems kv Some show ?thesis by simp
    next
      case (Some t) note t = this
      show ?thesis
      proof (cases "x > t")
        case False
        with Cons.prems kv \<open>v = Some x\<close> t
        have "check_alerts_loop F prev ms (s, dict_set k (JBool False) al, ml) = Inr (s', al', ml')"
          by simp
        from Cons.IH[OF this] False kv \<open>v = Some x\<close> t show ?thesis
          by (simp add: contributes_def flag_entry_def breach_line_def breaches_def)
      next
        case True
        show ?thesis
        proof (cases F)
          case True
          with Cons.prems kv \<open>v = Some x\<close> t \<open>x > t\<close>
          have "check_alerts_loop F prev ms (True, dict_set k (JBool True) al, ml @ [Breach k x t])
                  = Inr (s', al', ml')"
            by simp
          from Cons.IH[OF this] True kv \<open>v = Some x\<close> t \<open>x > t\<close> show ?thesis
            by (simp add: contributes_def flag_entry_def breach_line_def breaches_def)
        next
          case False
          with Cons.prems kv \<open>v = Some x\<close> t \<open>x > t\<close>
          obtain flag where fl: "py_get prev k (JBool False) = Inr flag"
            and "check_alerts_loop F prev ms (s \<or> \<not> truthy flag, dict_set k (JBool True) al, ml @ [Breach k x t])
                  = Inr (s', al', ml')"
            by (auto split: sum.splits)
          from Cons.IH[OF this(2)] False kv \<open>v = Some x\<close> t \<open>x > t\<close> fl show ?thesis
            by (auto simp add: contributes_def flag_entry_def breach_line_def breaches_def)
        qed
      qed
    qed
  qed
qed


lemma py_get_Inr_iff: "(\<exists>flag. py_get prev k d = Inr flag) \<longleftrightarrow> (\<exists>p. prev = JObj p)"
  by (cases prev) auto

lemma loop_returns_iff:
  "(\<exists>r. check_alerts_loop F prev ms acc = Inr r) \<longleftrightarrow> (\<forall>kv\<in>set ms. entry_ok F prev kv)"
proof (induction ms arbitrary: acc)
  case (Nil acc) then show ?case by (cases acc) auto
next
  case (Cons kv ms acc)
  obtain k v where kv: "kv = (k, v)" by (cases kv)
  obtain s al ml where acc: "acc = (s, al, ml)" by (cases acc) auto
  let ?L = "check_alerts_loop F prev (kv # ms) acc"
  have fails: ?case if "?L = Inl e" "\<not> entry_ok F prev kv" for e
    using that by simp
  have continues: ?case if "?L = check_alerts_loop F prev ms acc'" "entry_ok F prev kv" for acc'
    using that Cons.IH[of acc'] by simp
  show ?case
  proof (cases v)
    case None
    have "?L = check_alerts_loop F prev ms (s, dict_set k (JBool False) al, ml)"
      by (simp add: kv acc None)
    moreover have "entry_ok F prev kv" by (simp add: entry_ok_def kv None)
    ultimately show ?thesis by (rule continues)
  next
    case (Some x)
    show ?thesis
    proof (cases "map_of THRESHOLDS k")
      case None
      have "?L = Inl TypeError" by (simp add: kv acc Some None)
      moreover have "\<not> entry_ok F prev kv" by (simp add: entry_ok_def kv Some None)
      ultimately show ?thesis by (rule fails)
    next
      case (Some t)
      note defs = kv acc \<open>v = Some x\<close> Some
      consider "\<not> x > t" | "x > t" "F" | "x > t" "\<not> F" "\<exists>p. prev = JObj p"
        | "x > t" "\<not> F" "\<not> (\<exists>p. prev = JObj p)" by blast
      then show ?thesis
      proof cases
        case 1
        have "?L = check_alerts_loop F prev ms (s, dict_set k (JBool False) al, ml)"
          using 1 by (simp add: defs)
        moreover have "entry_ok F prev kv" using 1 by (simp add: entry_ok_def defs)
        ultimately show ?thesis by (rule continues)
      next
        case 2
        have "?L = check_alerts_loop F prev ms
                     (True, dict_set k (JBool True) al, ml @ [Breach k x t])"
          using 2 by (simp add: defs)
        moreover have "entry_ok F prev kv" using 2 by (simp add: entry_ok_def defs)
        ultimately show ?thesis by (rule continues)
      next
        case 3
        then obtain p where p: "prev = JObj p" by blast
        have "?L = check_alerts_loop F prev ms
                     (s \<or> \<not> truthy (dict_get_default p k (JBool False)),
                      dict_set k (JBool True) al, ml @ [Breach k x t])"
          using 3 by (simp add: defs p)
        moreover have "entry_ok F prev kv" using 3 by (simp add: entry_ok_def defs)
        ultimately show ?thesis by (rule continues)
      next
        case 4
        then have "py_get prev k (JBool False) = Inl AttributeError" by (cases prev) auto
        then have "?L = Inl AttributeError" using 4 by (simp add: defs)
        moreover have "\<not> entry_ok F prev kv" using 4 by (simp add: entry_ok_def defs)
        ultimately show ?thesis by (rule fails)
      qed
    qed
  qed
qed

lemma check_alerts_result:
  assumes "check_alerts F ms prev = Inr (s, al, ml)"
  shows "s = (\<exists>kv\<in>set ms. contributes F prev kv)"
    and "al = fold (\<lambda>kv. dict_set (fst kv) (snd (flag_entry kv))) ms []"
    and "ml = Header # concat (map breach_line ms)"
  using loop_result[OF assms[unfolded check_alerts_def]] by simp_all

lemma check_alerts_flags_distinct:
  assumes "check_alerts F ms prev = Inr (s, al, ml)" and "distinct (map fst ms)"
  shows "al = map flag_entry ms"
  using check_alerts_result(2)[OF assms(1)] fold_dict_set_distinct[OF assms(2), of "[]" "\<lambda>kv. snd (flag_entry kv)"]
  by (simp add: flag_entry_def)

lemma breach_line_key: "Breach k x t \<in> set (breach_line kv) \<Longrightarrow> kv = (k, Some x)"
  by (cases kv) (auto simp: breach_line_def split: option.splits if_splits)

lemma check_alerts_null_entry:
  assumes "distinct (map fst metrics)" and "(k, None) \<in> set metrics"
    and "check_alerts F metrics prev = Inr (send_alert, alerts, msg)"
  shows "map_of alerts k = Some (JBool False)
       \<and> (\<forall>x t. Breach k x t \<notin> set msg)
       \<and> check_alerts F (filter (\<lambda>kv. fst kv \<noteq> k) metrics) prev
           = Inr (send_alert, filter (\<lambda>kv. fst kv \<noteq> k) alerts, msg)"
proof (intro conjI allI)
  let ?rest = "filter (\<lambda>kv. fst kv \<noteq> k) metrics"
  have al: "alerts = map flag_entry metrics"
    by (rule check_alerts_flags_distinct[OF assms(3,1)])
  have only: "v = None" if "(k, v) \<in> set metrics" for v
    using assms(1,2) that by (meson eq_key_imp_eq_value)
  have "distinct (map fst alerts)" using assms(1) by (simp add: al flag_entry_def comp_def)
  moreover have "(k, JBool False) \<in> set alerts"
    using assms(2) by (force simp: al flag_entry_def breaches_def)
  ultimately show "map_of alerts k = Some (JBool False)" by simp
  show "Breach k x t \<notin> set msg" for x t
  proof
    assume "Breach k x t \<in> set msg"
    then obtain kv where "kv \<in> set metrics" "Breach k x t \<in> set (breach_line kv)"
      using check_alerts_result(3)[OF assms(3)] by auto
    then have "(k, Some x) \<in> set metrics" using breach_line_key by blast
    then show False using only by blast
  qed
  have "\<exists>r. check_alerts_loop F prev metrics (False, [], [Header]) = Inr r"
    using assms(3) by (simp add: check_alerts_def)
  then have "\<forall>kv\<in>set metrics. entry_ok F prev kv" by (simp only: loop_returns_iff)
  then have "\<forall>kv\<in>set ?rest. entry_ok F prev kv" by simp
  then obtain r where "check_alerts_loop F prev ?rest (False, [], [Header]) = Inr r"
    using loop_returns_iff[of F prev ?rest "(False, [], [Header])"] by blast
  then obtain s' al' ml' where r: "check_alerts F ?rest prev = Inr (s', al', ml')"
    by (cases r) (simp add: check_alerts_def)
  have gone: "\<not> contributes F prev kv \<and> breach_line kv = []"
    if "kv \<in> set metrics" "fst kv = k" for kv
  proof -
    have "(k, snd kv) \<in> set metrics" using that by (metis prod.collapse)
    then have "snd kv = None" by (rule only)
    then show ?thesis by (simp add: contributes_def breaches_def breach_line_def)
  qed
  have "(\<exists>kv\<in>set ?rest. contributes F prev kv) = (\<exists>kv\<in>set metrics. contributes F prev kv)"
    using gone by fastforce
  then have "s' = send_alert"
    using check_alerts_result(1)[OF r] check_alerts_result(1)[OF assms(3)] by simp
  moreover have "al' = filter (\<lambda>kv. fst kv \<noteq> k) alerts"
  proof -
    have "distinct (map fst ?rest)" using assms(1) by (simp add: distinct_map_filter)
    from check_alerts_flags_distinct[OF r this] show ?thesis
      by (simp add: al filter_map comp_def flag_entry_def)
  qed
  moreover have "ml' = msg"
  proof -
    have "concat (map breach_line ?rest) = concat (map breach_line metrics)"
      using gone by (induction metrics) auto
    then show ?thesis
      using check_alerts_result(3)[OF r] check_alerts_result(3)[OF assms(3)] by simp
  qed
  ultimately show "check_alerts F ?rest prev = Inr (send_alert, filter (\<lambda>kv. fst kv \<noteq> k) alerts, msg)"
    using r by simp
qed


lemma check_alerts_returns:
  assumes "thresholds_known ms" and "F \<or> (\<exists>p. prev = JObj p)"
  shows "\<exists>s al ml. check_alerts F ms prev = Inr (s, al, ml)"
proof -
  have "\<forall>kv\<in>set ms. entry_ok F prev kv"
    using assms by (auto simp: thresholds_known_def list_all_iff entry_ok_def split: option.splits)
  then obtain r where "check_alerts_loop F prev ms (False, [], [Header]) = Inr r"
    using loop_returns_iff[of F prev ms "(False, [], [Header])"] by blast
  then show ?thesis by (cases r) (simp add: check_alerts_def)
qed

text \<open>
  Claim C2 fails on the code: a metric sampled as null takes the \<^verbatim>\<open>else\<close> branch of the
  loop, which stores the flag \<^verbatim>\<open>False\<close>, so a flag that was set is cleared.  Here the
  flag of \<^verbatim>\<open>temp\<close> is set before the evaluation and cleared by it, both in the result
  of \<open>check_alerts\<close> and in the state file written by \<open>monitor_main\<close>.
\<close>

theorem null_metric_clears_flag:
  "dict_get_default [(''cpu'', JBool False), (''temp'', JBool True)] ''temp'' (JBool False) = JBool True
   \<and> check_alerts False [(''cpu'', Some 50), (''temp'', None)]
        (JObj [(''cpu'', JBool False), (''temp'', JBool True)])
       = Inr (False, [(''cpu'', JBool False), (''temp'', JBool False)], [Header])
   \<and> monitor_main False [(''cpu'', Some 50), (''temp'', None)] ''12:00''
        (Some [(''alerts'', JObj [(''cpu'', JBool False), (''temp'', JBool True)])])
       = (None, None,
          Some [(''alerts'', JObj [(''cpu'', JBool False), (''temp'', JBool False)]),
                (''metrics'', JObj [(''cpu'', JNum 50), (''temp'', JNull)]),
                (''last_check'', JStr ''12:00'')])"
  by (simp add: check_alerts_def monitor_main_def monitor_load_state_def dict_get_default_def
      THRESHOLDS_def metrics_json_def)

text \<open>
  Claim C2 as amended.  For a sample (a dictionary, so with distinct keys) whose numbers
  all have thresholds, and a metric \<open>k\<close> sampled as null: the evaluation returns, the new
  flag of \<open>k\<close> is \<^verbatim>\<open>False\<close> whatever the previous flag was, no line of the message is
  about \<open>k\<close>, and \<open>k\<close> counts as not breached for the notification: the decision and the
  message are those of the sample without \<open>k\<close>, whose flags are the other flags.
\<close>

theorem null_metric:
  assumes "distinct (map fst metrics)" and "(k, None) \<in> set metrics"
    and "thresholds_known metrics"
  shows "\<exists>send_alert alerts msg.
           check_alerts F metrics (JObj prev) = Inr (send_alert, alerts, msg)
         \<and> map_of alerts k = Some (JBool False)
         \<and> (\<forall>x t. Breach k x t \<notin> set msg)
         \<and> check_alerts F (filter (\<lambda>kv. fst kv \<noteq> k) metrics) (JObj prev)
             = Inr (send_alert, filter (\<lambda>kv. fst kv \<noteq> k) alerts, msg)"
proof -
  from check_alerts_returns[OF assms(3), of F "JObj prev"]
  obtain s al ml where r: "check_alerts F metrics (JObj prev) = Inr (s, al, ml)" by blast
  from check_alerts_null_entry[OF assms(1,2) r] r show ?thesis by blast
qed

theorem null_metric_witness:
  "distinct (map fst [(''cpu'', Some (90::real)), (''temp'', None)])
   \<and> (''temp'', None) \<in> set [(''cpu'', Some (90::real)), (''temp'', None)]
   \<and> thresholds_known [(''cpu'', Some 90), (''temp'', None)]
   \<and> check_alerts False [(''cpu'', Some 90), (''temp'', None)] (JObj [(''temp'', JBool True)])
       = Inr (True, [(''cpu'', JBool True), (''temp'', JBool False)], [Header, Breach ''cpu'' 90 85])
   \<and> check_alerts False [(''cpu'', Some 90)] (JObj [(''temp'', JBool True)])
       = Inr (True, [(''cpu'', JBool True)], [Header, Breach ''cpu'' 90 85])"
  using null_metric[of "[(''cpu'', Some 90), (''temp'', None)]" "''temp''" False "[(''temp'', JBool True)]"]
  by (simp add: thresholds_known_def THRESHOLDS_def check_alerts_def dict_get_default_def)

lemma force_loop_flags:
  "map_sum id snd (check_alerts_loop True (JObj p) ms (s1, al, ml))
     = map_sum id snd (check_alerts_loop False (JObj p) ms (s2, al, ml))"
  by (induction ms arbitrary: s1 s2 al ml) (auto split: option.splits)

text \<open>
  Claim C10.  For every sample and every previous flags mapping, the evaluation with
  \<open>FORCE_CHECK\<close> set and the evaluation without it return the same new flags, or raise the
  same error: \<open>FORCE_CHECK\<close> only enters the notification decision.
\<close>

theorem force_noninterference:
  "map_sum id (fst \<circ> snd) (check_alerts True metrics (JObj prev))
     = map_sum id (fst \<circ> snd) (check_alerts False metrics (JObj prev))"
proof -
  have split: "map_sum id (fst \<circ> snd) r = map_sum id fst (map_sum id snd r)"
    for r :: "error + (bool \<times> json dict \<times> msg_line list)"
    by (cases r) auto
  have "map_sum id snd (check_alerts True metrics (JObj prev))
          = map_sum id snd (check_alerts False metrics (JObj prev))"
    unfolding check_alerts_def by (rule force_loop_flags)
  then show ?thesis by (simp only: split)
qed

theorem force_noninterference_witness:
  "map_sum id (fst \<circ> snd)
     (check_alerts True [(''cpu'', Some 90), (''temp'', None)] (JObj [(''cpu'', JBool True)]))
     = Inr [(''cpu'', JBool True), (''temp'', JBool False)]
   \<and> map_sum id (fst \<circ> snd)
     (check_alerts False [(''cpu'', Some 90), (''temp'', None)] (JObj [(''cpu'', JBool True)]))
     = Inr [(''cpu'', JBool True), (''temp'', JBool False)]
   \<and> fst (projr (check_alerts True [(''cpu'', Some 90), (''temp'', None)] (JObj [(''cpu'', JBool True)])))
   \<and> \<not> fst (projr (check_alerts False [(''cpu'', Some 90), (''temp'', None)] (JObj [(''cpu'', JBool True)])))"
  using force_noninterference[of "[(''cpu'', Some 90), (''temp'', None)]" "[(''cpu'', JBool True)]"]
  by (simp add: check_alerts_def THRESHOLDS_def dict_get_default_def)

lemma evaluations_force:
  assumes "\<forall>ms\<in>set samples. thresholds_known ms \<and> (\<exists>kv\<in>set ms. breaches (fst kv) (snd kv))"
  shows "evaluations True prev samples = Inr (replicate (length samples) True)"
  using assms
proof (induction samples arbitrary: prev)
  case Nil then show ?case by simp
next
  case (Cons ms rest prev)
  then have known: "thresholds_known ms" and b: "\<exists>kv\<in>set ms. breaches (fst kv) (snd kv)"
    by simp_all
  from check_alerts_returns[OF known, of True prev]
  obtain s al ml where r: "check_alerts True ms prev = Inr (s, al, ml)" by blast
  from b have "\<exists>kv\<in>set ms. contributes True prev kv" by (simp add: contributes_def)
  with check_alerts_result(1)[OF r] have "s" by simp
  moreover have "evaluations True (JObj al) rest = Inr (replicate (length rest) True)"
    using Cons.IH Cons.prems by simp
  ultimately show ?case using r by simp
qed

lemma covered_next:
  assumes "distinct (map fst m1)"
    and "\<forall>kv\<in>set m2. breaches (fst kv) (snd kv) \<longrightarrow> (\<exists>v. (fst kv, v) \<in> set m1 \<and> breaches (fst kv) v)"
  shows "covered (map flag_entry m1) m2"
  unfolding covered_def
proof (intro ballI impI)
  fix kv assume "kv \<in> set m2" "breaches (fst kv) (snd kv)"
  with assms(2) obtain v where v: "(fst kv, v) \<in> set m1" "breaches (fst kv) v" by blast
  have "distinct (map fst (map flag_entry m1))"
    using assms(1) by (simp add: flag_entry_def comp_def)
  moreover have "(fst kv, JBool True) \<in> set (map flag_entry m1)"
  proof -
    have "flag_entry (fst kv, v) = (fst kv, JBool True)"
      using v(2) by (simp add: flag_entry_def)
    moreover have "flag_entry (fst kv, v) \<in> set (map flag_entry m1)"
      using v(1) by simp
    ultimately show ?thesis by simp
  qed
  ultimately have "map_of (map flag_entry m1) (fst kv) = Some (JBool True)" by simp
  then show "truthy (dict_get_default (map flag_entry m1) (fst kv) (JBool False))"
    by (simp add: dict_get_default_def)
qed

lemma check_alerts_step:
  assumes "thresholds_known ms" and "distinct (map fst ms)"
  shows "check_alerts False ms (JObj flags)
           = Inr (\<exists>kv\<in>set ms. contributes False (JObj flags) kv, map flag_entry ms,
                  Header # concat (map breach_line ms))"
proof -
  from check_alerts_returns[OF assms(1), of False "JObj flags"]
  obtain s al ml where r: "check_alerts False ms (JObj flags) = Inr (s, al, ml)" by blast
  from check_alerts_result(1,3)[OF r] check_alerts_flags_distinct[OF r assms(2)] r
  show ?thesis by simp
qed

lemma covered_silent: "covered flags ms \<Longrightarrow> \<not> (\<exists>kv\<in>set ms. contributes False (JObj flags) kv)"
  by (auto simp: covered_def contributes_def)

lemma evaluations_quiet:
  assumes "\<forall>ms\<in>set samples. thresholds_known ms \<and> distinct (map fst ms)"
    and "samples \<noteq> [] \<longrightarrow> covered flags (hd samples)"
    and "no_new_breach samples"
  shows "evaluations False (JObj flags) samples = Inr (replicate (length samples) False)"
  using assms
proof (induction samples arbitrary: flags)
  case Nil then show ?case by simp
next
  case (Cons ms rest flags)
  then have ok: "thresholds_known ms" "distinct (map fst ms)" and c: "covered flags ms"
    by simp_all
  have step: "check_alerts False ms (JObj flags)
                = Inr (False, map flag_entry ms, Header # concat (map breach_line ms))"
    using check_alerts_step[OF ok, of flags] covered_silent[OF c] by simp
  have "evaluations False (JObj (map flag_entry ms)) rest = Inr (replicate (length rest) False)"
  proof (rule Cons.IH)
    show "\<forall>ms\<in>set rest. thresholds_known ms \<and> distinct (map fst ms)"
      using Cons.prems(1) by simp
    show "no_new_breach rest" using Cons.prems(3) by (cases rest) simp_all
    show "rest \<noteq> [] \<longrightarrow> covered (map flag_entry ms) (hd rest)"
    proof
      assume "rest \<noteq> []"
      then obtain m2 more where rest: "rest = m2 # more" by (cases rest) auto
      with Cons.prems(3) have
        "\<forall>kv\<in>set m2. breaches (fst kv) (snd kv) \<longrightarrow> (\<exists>v. (fst kv, v) \<in> set ms \<and> breaches (fst kv) v)"
        by simp
      from covered_next[OF ok(2) this] rest show "covered (map flag_entry ms) (hd rest)" by simp
    qed
  qed
  with step show ?case by simp
qed

text \<open>
  Claim C3 fails on the code as it is worded: the notification is decided for the whole
  sample, so while one metric breaches in every evaluation, another metric that starts
  to breach later requests the notification again.  Here \<^verbatim>\<open>cpu\<close> breaches in both
  evaluations, \<^verbatim>\<open>ram\<close> starts to breach in the second, and both request the
  notification.
\<close>

theorem sustained_breach_notified_twice:
  "breaches ''cpu'' (Some 90)
   \<and> evaluations False (JObj [])
        [[(''cpu'', Some 90), (''ram'', Some 50)], [(''cpu'', Some 90), (''ram'', Some 95)]]
       = Inr [True, True]"
  by (simp add: breaches_def check_alerts_def THRESHOLDS_def dict_get_default_def)

text \<open>
  Claim C3 as amended.  Take a non-empty sequence of samples (dictionaries whose numbers
  all have thresholds) in each of which the metric \<open>k\<close> breaches its limit, the flags
  returned by each evaluation being the previous flags of the next.  With \<open>FORCE_CHECK\<close>
  set every evaluation requests the notification.  Without it, an evaluation requests the
  notification exactly when some breaching metric of its sample has no flag set before,
  and it sets the flag of \<open>k\<close>; so when the flag of \<open>k\<close> is not set at the start and no
  other metric starts to breach later, the first evaluation requests the notification
  and no later one does.
\<close>

theorem hysteresis:
  assumes "samples \<noteq> []"
    and "\<forall>ms\<in>set samples. thresholds_known ms \<and> distinct (map fst ms)
           \<and> (\<exists>x. (k, x) \<in> set ms \<and> breaches k x)"
  shows "evaluations True prev samples = Inr (replicate (length samples) True)
       \<and> (\<forall>ms\<in>set samples. \<forall>before. \<exists>alerts msg.
             check_alerts False ms (JObj before)
               = Inr (\<exists>kv\<in>set ms. breaches (fst kv) (snd kv)
                                   \<and> \<not> truthy (dict_get_default before (fst kv) (JBool False)),
                      alerts, msg)
             \<and> map_of alerts k = Some (JBool True))
       \<and> (no_new_breach samples \<and> \<not> truthy (dict_get_default flags k (JBool False))
          \<longrightarrow> evaluations False (JObj flags) samples
                = Inr (True # replicate (length samples - 1) False))"
proof (intro conjI impI ballI allI)
  have "\<forall>ms\<in>set samples. thresholds_known ms \<and> (\<exists>kv\<in>set ms. breaches (fst kv) (snd kv))"
    using assms(2) by force
  then show "evaluations True prev samples = Inr (replicate (length samples) True)"
    by (rule evaluations_force)
next
  fix ms before
  assume "ms \<in> set samples"
  with assms(2) have ok: "thresholds_known ms" "distinct (map fst ms)"
    and "\<exists>x. (k, x) \<in> set ms \<and> breaches k x" by simp_all
  then obtain x where x: "(k, x) \<in> set ms" "breaches k x" by blast
  have "flag_entry (k, x) = (k, JBool True)" using x(2) by (simp add: flag_entry_def)
  moreover have "flag_entry (k, x) \<in> set (map flag_entry ms)" using x(1) by simp
  ultimately have "(k, JBool True) \<in> set (map flag_entry ms)" by simp
  moreover have "distinct (map fst (map flag_entry ms))"
    using ok(2) by (simp add: flag_entry_def comp_def)
  ultimately have fl: "map_of (map flag_entry ms) k = Some (JBool True)" by simp
  have "(\<exists>kv\<in>set ms. contributes False (JObj before) kv)
          = (\<exists>kv\<in>set ms. breaches (fst kv) (snd kv)
                            \<and> \<not> truthy (dict_get_default before (fst kv) (JBool False)))"
    by (simp add: contributes_def)
  with check_alerts_step[OF ok, of before] fl
  show "\<exists>alerts msg.
          check_alerts False ms (JObj before)
            = Inr (\<exists>kv\<in>set ms. breaches (fst kv) (snd kv)
                                \<and> \<not> truthy (dict_get_default before (fst kv) (JBool False)),
                   alerts, msg)
          \<and> map_of alerts k = Some (JBool True)"
    by simp
next
  assume q: "no_new_breach samples \<and> \<not> truthy (dict_get_default flags k (JBool False))"
  from assms(1) obtain ms rest where samples: "samples = ms # rest" by (cases samples) auto
  with assms(2) have ok: "thresholds_known ms" "distinct (map fst ms)"
    and "\<exists>x. (k, x) \<in> set ms \<and> breaches k x" by simp_all
  then obtain x where x: "(k, x) \<in> set ms" "breaches k x" by blast
  with q have "contributes False (JObj flags) (k, x)" by (simp add: contributes_def)
  with x(1) have first: "\<exists>kv\<in>set ms. contributes False (JObj flags) kv" by blast
  have step: "check_alerts False ms (JObj flags)
                = Inr (True, map flag_entry ms, Header # concat (map breach_line ms))"
    using check_alerts_step[OF ok, of flags] first by simp
  have "evaluations False (JObj (map flag_entry ms)) rest = Inr (replicate (length rest) False)"
  proof (rule evaluations_quiet)
    show "\<forall>ms\<in>set rest. thresholds_known ms \<and> distinct (map fst ms)"
      using assms(2) samples by simp
    show "no_new_breach rest" using q samples by (cases rest) simp_all
    show "rest \<noteq> [] \<longrightarrow> covered (map flag_entry ms) (hd rest)"
    proof
      assume "rest \<noteq> []"
      then obtain m2 more where rest: "rest = m2 # more" by (cases rest) auto
      with q samples have
        "\<forall>kv\<in>set m2. breaches (fst kv) (snd kv) \<longrightarrow> (\<exists>v. (fst kv, v) \<in> set ms \<and> breaches (fst kv) v)"
        by simp
      from covered_next[OF ok(2) this] rest show "covered (map flag_entry ms) (hd rest)" by simp
    qed
  qed
  with step samples
  show "evaluations False (JObj flags) samples = Inr (True # replicate (length samples - 1) False)"
    by simp
qed

theorem hysteresis_witness:
  "evaluations True JNull
       [[(''cpu'', Some 90), (''ram'', Some 95), (''temp'', None)],
        [(''cpu'', Some 99), (''ram'', Some 50), (''temp'', Some 40)],
        [(''ram'', Some 5), (''cpu'', Some 86)]]
     = Inr [True, True, True]
   \<and> evaluations False (JObj [(''ram'', JBool True)])
       [[(''cpu'', Some 90), (''ram'', Some 95), (''temp'', None)],
        [(''cpu'', Some 99), (''ram'', Some 50), (''temp'', Some 40)],
        [(''ram'', Some 5), (''cpu'', Some 86)]]
     = Inr [True, False, False]"
  using hysteresis[of "[[(''cpu'', Some 90), (''ram'', Some 95), (''temp'', None)],
        [(''cpu'', Some 99), (''ram'', Some 50), (''temp'', Some 40)],
        [(''ram'', Some 5), (''cpu'', Some 86)]]" "''cpu''" JNull "[(''ram'', JBool True)]"]
  by (simp add: thresholds_known_def THRESHOLDS_def breaches_def dict_get_default_def)


section \<open>maintenance.py: the tasks and their records\<close>

lemma dispatch_all:
  "dispatch ''all'' shell =
     [(''os_update'', os_update shell), (''pihole_update'', pihole_update shell),
      (''gravity'', gravity_update shell), (''clear_logs'', clear_logs shell)]"
  by (simp add: dispatch_def tasks_to_run_def)

lemma dispatch_single:
  "T \<noteq> ''all'' \<Longrightarrow> map_of tasks_to_run T = Some func \<Longrightarrow> dispatch T shell = [(T, func shell)]"
  by (simp add: dispatch_def)

lemma map_of_update_state_other:
  "t \<notin> fst ` set results \<Longrightarrow> map_of (update_state now results state) t = map_of state t"
  unfolding update_state_def
  by (induction results arbitrary: state) (auto simp: map_of_dict_set)

lemma map_of_update_state:
  "distinct (map fst results) \<Longrightarrow> (t, r) \<in> set results \<Longrightarrow>
     map_of (update_state now results state) t = Some (task_record (now t) (fst r) (snd r))"
proof (induction results arbitrary: state)
  case Nil then show ?case by simp
next
  case (Cons kv results state)
  obtain k v where kv: "kv = (k, v)" by (cases kv)
  have step: "update_state now (kv # results) state
                = update_state now results (dict_set k (task_record (now k) (fst v) (snd v)) state)"
    by (simp add: update_state_def kv)
  show ?case
  proof (cases "(t, r) \<in> set results")
    case True
    with Cons.prems have "distinct (map fst results)" by simp
    from Cons.IH[OF this True] show ?thesis by (simp only: step)
  next
    case False
    with Cons.prems kv have eq: "k = t" "v = r" by auto
    with Cons.prems kv have "t \<notin> fst ` set results" by auto
    then have "map_of (update_state now (kv # results) state) t
                 = map_of (dict_set k (task_record (now k) (fst v) (snd v)) state) t"
      unfolding step by (rule map_of_update_state_other)
    then show ?thesis by (simp add: map_of_dict_set eq)
  qed
qed

lemma keys_update_state:
  "distinct (map fst state) \<Longrightarrow> distinct (map fst (update_state now results state))"
  unfolding update_state_def
  by (induction results arbitrary: state) (auto simp: distinct_dict_set)

lemma task_in_choices:
  "map_of tasks_to_run T = Some func \<Longrightarrow> T \<in> set task_choices \<and> T \<noteq> ''all''"
  by (auto simp: tasks_to_run_def task_choices_def split: if_splits)

lemma maintenance_script_runs:
  assumes "load_maintenance_config test config_file = Inr cfg" and "TASK \<in> set task_choices"
  shows "maintenance_script TASK test config_file shell now state_file
           = (Inr (summary_lines (dispatch TASK shell), \<not> TEST_MODE cfg),
              Some (update_state now (dispatch TASK shell) (maintenance_load_state state_file)))"
  using assms by (simp add: maintenance_script_def Let_def)

lemma map_of_loaded_state:
  "map_of (maintenance_load_state state_file) t
     = (case state_file of None \<Rightarrow> None | Some state \<Rightarrow> map_of state t)"
  by (simp add: maintenance_load_state_def split: option.splits)

text \<open>
  Claim C5.  When the configuration loads, the task \<^verbatim>\<open>all\<close> runs the four sub-tasks
  whatever their outcomes: the summary has one line per sub-task, in order, with the
  success of that sub-task; the state holds for each sub-task one record whose three
  fields are the time of its own run, its own success and its own output; the records
  that the state file holds under other names are untouched; and the summary reports as
  many failures as sub-tasks failed (one when exactly one fails).
\<close>

theorem task_isolation:
  assumes "load_maintenance_config test config_file = Inr cfg"
  shows "\<exists>state'.
           maintenance_script ''all'' test config_file shell now state_file
             = (Inr ([(''os_update'', fst (os_update shell)),
                      (''pihole_update'', fst (pihole_update shell)),
                      (''gravity'', fst (gravity_update shell)),
                      (''clear_logs'', fst (clear_logs shell))], \<not> TEST_MODE cfg),
                Some state')
         \<and> map_of state' ''os_update''
             = Some (JObj [(''last_run'', JStr (now ''os_update'')),
                           (''success'', JBool (fst (os_update shell))),
                           (''output'', JStr (snd (os_update shell)))])
         \<and> map_of state' ''pihole_update''
             = Some (JObj [(''last_run'', JStr (now ''pihole_update'')),
                           (''success'', JBool (fst (pihole_update shell))),
                           (''output'', JStr (snd (pihole_update shell)))])
         \<and> map_of state' ''gravity''
             = Some (JObj [(''last_run'', JStr (now ''gravity'')),
                           (''success'', JBool (fst (gravity_update shell))),
                           (''output'', JStr (snd (gravity_update shell)))])
         \<and> map_of state' ''clear_logs''
             = Some (JObj [(''last_run'', JStr (now ''clear_logs'')),
                           (''success'', JBool (fst (clear_logs shell))),
                           (''output'', JStr (snd (clear_logs shell)))])
         \<and> (\<forall>t. t \<notin> {''os_update'', ''pihole_update'', ''gravity'', ''clear_logs''} \<longrightarrow>
               map_of state' t = (case state_file of None \<Rightarrow> None | Some state \<Rightarrow> map_of state t))
         \<and> ((case state_file of None \<Rightarrow> True | Some state \<Rightarrow> distinct (map fst state))
               \<longrightarrow> distinct (map fst state'))
         \<and> length (filter (\<lambda>line. \<not> snd line)
               [(''os_update'', fst (os_update shell)),
                (''pihole_update'', fst (pihole_update shell)),
                (''gravity'', fst (gravity_update shell)),
                (''clear_logs'', fst (clear_logs shell))])
           = length (filter (\<lambda>(t, func). \<not> fst (func shell)) tasks_to_run)"
proof -
  let ?results = "dispatch ''all'' shell"
  let ?state' = "update_state now ?results (maintenance_load_state state_file)"
  have run: "maintenance_script ''all'' test config_file shell now state_file
               = (Inr (summary_lines ?results, \<not> TEST_MODE cfg), Some ?state')"
    by (rule maintenance_script_runs[OF assms]) (simp add: task_choices_def)
  have d: "distinct (map fst ?results)" by (simp add: dispatch_all)
  have rec: "map_of ?state' t
               = Some (JObj [(''last_run'', JStr (now t)), (''success'', JBool (fst r)),
                             (''output'', JStr (snd r))])"
    if "(t, r) \<in> set ?results" for t r
    using map_of_update_state[OF d that, of now "maintenance_load_state state_file"]
    by (simp add: task_record_def)
  have others: "map_of ?state' t = (case state_file of None \<Rightarrow> None | Some state \<Rightarrow> map_of state t)"
    if "t \<notin> {''os_update'', ''pihole_update'', ''gravity'', ''clear_logs''}" for t
  proof -
    from that have "t \<notin> fst ` set ?results" by (simp add: dispatch_all)
    then show ?thesis by (simp add: map_of_update_state_other map_of_loaded_state)
  qed
  have keys: "distinct (map fst ?state')"
    if "case state_file of None \<Rightarrow> True | Some state \<Rightarrow> distinct (map fst state)"
  proof (rule keys_update_state)
    show "distinct (map fst (maintenance_load_state state_file))"
      using that by (simp add: maintenance_load_state_def split: option.splits)
  qed
  have count: "length (filter (\<lambda>line. \<not> snd line)
               [(''os_update'', fst (os_update shell)),
                (''pihole_update'', fst (pihole_update shell)),
                (''gravity'', fst (gravity_update shell)),
                (''clear_logs'', fst (clear_logs shell))])
           = length (filter (\<lambda>(t, func). \<not> fst (func shell)) tasks_to_run)"
    by (simp add: tasks_to_run_def)
  have summary: "summary_lines ?results
                   = [(''os_update'', fst (os_update shell)),
                      (''pihole_update'', fst (pihole_update shell)),
                      (''gravity'', fst (gravity_update shell)),
                      (''clear_logs'', fst (clear_logs shell))]"
    by (simp add: summary_lines_def dispatch_all)
  show ?thesis
  proof (intro exI[of _ ?state'] conjI allI impI)
    show "maintenance_script ''all'' test config_file shell now state_file
             = (Inr ([(''os_update'', fst (os_update shell)),
                      (''pihole_update'', fst (pihole_update shell)),
                      (''gravity'', fst (gravity_update shell)),
                      (''clear_logs'', fst (clear_logs shell))], \<not> TEST_MODE cfg),
                Some ?state')"
      by (simp only: run summary)
    show "map_of ?state' ''os_update''
             = Some (JObj [(''last_run'', JStr (now ''os_update'')),
                           (''success'', JBool (fst (os_update shell))),
                           (''output'', JStr (snd (os_update shell)))])"
      by (rule rec) (simp add: dispatch_all)
    show "map_of ?state' ''pihole_update''
             = Some (JObj [(''last_run'', JStr (now ''pihole_update'')),
                           (''success'', JBool (fst (pihole_update shell))),
                           (''output'', JStr (snd (pihole_update shell)))])"
      by (rule rec) (simp add: dispatch_all)
    show "map_of ?state' ''gravity''
             = Some (JObj [(''last_run'', JStr (now ''gravity'')),
                           (''success'', JBool (fst (gravity_update shell))),
                           (''output'', JStr (snd (gravity_update shell)))])"
      by (rule rec) (simp add: dispatch_all)
    show "map_of ?state' ''clear_logs''
             = Some (JObj [(''last_run'', JStr (now ''clear_logs'')),
                           (''success'', JBool (fst (clear_logs shell))),
                           (''output'', JStr (snd (clear_logs shell)))])"
      by (rule rec) (simp add: dispatch_all)
    show "map_of ?state' t = (case state_file of None \<Rightarrow> None | Some state \<Rightarrow> map_of state t)"
      if "t \<notin> {''os_update'', ''pihole_update'', ''gravity'', ''clear_logs''}" for t
      using that by (rule others)
    show "distinct (map fst ?state')"
      if "case state_file of None \<Rightarrow> True | Some state \<Rightarrow> distinct (map fst state)"
      using that by (rule keys)
    show "length (filter (\<lambda>line. \<not> snd line)
               [(''os_update'', fst (os_update shell)),
                (''pihole_update'', fst (pihole_update shell)),
                (''gravity'', fst (gravity_update shell)),
                (''clear_logs'', fst (clear_logs shell))])
           = length (filter (\<lambda>(t, func). \<not> fst (func shell)) tasks_to_run)"
      by (rule count)
  qed
qed

theorem task_isolation_witness:
  "load_maintenance_config False (Some config_with_credentials)
     = Inr \<lparr>TEST_MODE = False, BOT_TOKEN = JStr ''123:abc'', CHAT_ID = JStr ''42'',
            STATE_DIR = ''maintenance/state'', LOGS_DIR = ''maintenance/logs'', VENV_DIR = ''venv''\<rparr>
   \<and> maintenance_script ''all'' False (Some config_with_credentials) command_shell task_clock
        (Some [(''gravity'', JObj [(''last_run'', JStr ''2025-12-24T03:00:00''), (''note'', JStr ''old'')]),
               (''note'', JStr ''kept'')])
       = (Inr ([(''os_update'', True), (''pihole_update'', False), (''gravity'', True),
                (''clear_logs'', True)], True),
          Some [(''gravity'', JObj [(''last_run'', JStr ''2026-01-01T03:06:00''),
                                    (''success'', JBool True), (''output'', JStr ''gravity built'')]),
                (''note'', JStr ''kept''),
                (''os_update'', JObj [(''last_run'', JStr ''2026-01-01T03:04:00''),
                                      (''success'', JBool True), (''output'', JStr ''0 upgraded'')]),
                (''pihole_update'', JObj [(''last_run'', JStr ''2026-01-01T03:05:00''),
                                          (''success'', JBool False), (''output'', JStr ''update failed'')]),
                (''clear_logs'', JObj [(''last_run'', JStr ''2026-01-01T03:07:00''),
                                       (''success'', JBool True), (''output'', JStr ''logs flushed'')])])
   \<and> length (filter (\<lambda>line. \<not> snd line)
        [(''os_update'', True), (''pihole_update'', False), (''gravity'', True), (''clear_logs'', True)])
       = 1"
proof -
  have cfg: "load_maintenance_config False (Some config_with_credentials)
     = Inr \<lparr>TEST_MODE = False, BOT_TOKEN = JStr ''123:abc'', CHAT_ID = JStr ''42'',
            STATE_DIR = ''maintenance/state'', LOGS_DIR = ''maintenance/logs'', VENV_DIR = ''venv''\<rparr>"
    by (simp add: load_maintenance_config_def telegram_get_def maintenance_paths_def
        and_then_def dict_get_default_def config_with_credentials_def example_paths_def)
  have r: "os_update command_shell = (True, ''0 upgraded'')"
    "pihole_update command_shell = (False, ''update failed'')"
    "gravity_update command_shell = (True, ''gravity built'')"
    "clear_logs command_shell = (True, ''logs flushed'')"
    by (simp_all add: os_update_def pihole_update_def gravity_update_def clear_logs_def
        run_command_def command_shell_def strip_def is_space_def)
  from task_isolation[OF cfg, of command_shell task_clock
      "Some [(''gravity'', JObj [(''last_run'', JStr ''2025-12-24T03:00:00''), (''note'', JStr ''old'')]),
             (''note'', JStr ''kept'')]"]
    cfg r
  show ?thesis
    by (simp add: maintenance_script_def task_choices_def dispatch_all update_state_def
        maintenance_load_state_def summary_lines_def task_clock_def task_record_def Let_def)
qed

section \<open>Results of the task runners\<close>

text \<open>
  Claim C6.  In \<open>run_command\<close> and in \<open>run_task\<close> the success returned is true exactly
  when the process returned the code zero, and an exception raised while the process is
  launched or read is turned into a failed result whose output is the description of the
  exception; \<open>run_task\<close> also stores that failed result.  Both always return a result.
\<close>

theorem task_result:
  "(case shell cmd of
      Finished returncode output_lines \<Rightarrow>
        fst (run_command shell cmd description) = (returncode = 0)
    | PopenRaised e \<Rightarrow> run_command shell cmd description = (False, e))
   \<and> (case outcome of
        Completed returncode out err \<Rightarrow>
          (\<exists>output.
             run_task outcome timestamp now task state_file
               = ((returncode = 0, output, log_task timestamp task),
                  Some (dict_set task (task_record now (returncode = 0) output)
                          (load_maint_state state_file))))
      | RunRaised e \<Rightarrow>
          run_task outcome timestamp now task state_file
            = ((False, e, log_task timestamp task),
               Some (dict_set task (task_record now False e) (load_maint_state state_file))))"
  by (simp add: run_command_def run_task_def save_maint_state_def Let_def
      split: popen_outcome.splits run_outcome.splits)

theorem task_result_witness:
  "run_command example_shell ''sudo pihole -up'' ''Pi-hole update'' = (False, ''update failed'')
   \<and> run_command example_shell ''sudo pihole -g'' ''Pi-hole gravity update'' = (True, ''done'')
   \<and> run_task (RunRaised ''No such file'') ''2026-01-01_030000'' ''2026-01-01T03:00:00'' ''gravity'' None
       = ((False, ''No such file'', ''gravity_2026-01-01_030000.log''),
          Some [(''gravity'', task_record ''2026-01-01T03:00:00'' False ''No such file'')])
   \<and> fst (fst (run_task (Completed 2 ''usage'' []) ''2026-01-01_030000'' ''2026-01-01T03:00:00''
                   ''gravity'' None)) = False"
  using task_result[of example_shell "''sudo pihole -up''" "''Pi-hole update''"
      "RunRaised ''No such file''" "''2026-01-01_030000''" "''2026-01-01T03:00:00''" "''gravity''" None]
    task_result[of example_shell "''sudo pihole -g''" "''Pi-hole gravity update''"
      "Completed 2 ''usage'' []" "''2026-01-01_030000''" "''2026-01-01T03:00:00''" "''gravity''" None]
  by (simp add: run_command_def example_shell_def strip_def is_space_def run_task_def
      save_maint_state_def load_maint_state_def log_task_def Let_def)

text \<open>
  Claim C9.  Running one named task writes under that name a record whose three fields
  are the time, the success and the output of this run, whatever was stored there; the
  records that the state file holds under all other names are unchanged; and a state
  file with one record per name stays so.  The same holds for \<open>save_maint_state\<close> of
  the bot.
\<close>

theorem single_task_record:
  assumes "load_maintenance_config test config_file = Inr cfg"
    and "map_of tasks_to_run T = Some func"
  shows "(\<exists>state'.
           snd (maintenance_script T test config_file shell now state_file) = Some state'
         \<and> map_of state' T
             = Some (JObj [(''last_run'', JStr (now T)), (''success'', JBool (fst (func shell))),
                           (''output'', JStr (snd (func shell)))])
         \<and> (\<forall>t. t \<noteq> T \<longrightarrow>
               map_of state' t = (case state_file of None \<Rightarrow> None | Some state \<Rightarrow> map_of state t))
         \<and> ((case state_file of None \<Rightarrow> True | Some state \<Rightarrow> distinct (map fst state))
               \<longrightarrow> distinct (map fst state')))
       \<and> (\<exists>state'.
           save_maint_state time T success output state_file = Some state'
         \<and> map_of state' T
             = Some (JObj [(''last_run'', JStr time), (''success'', JBool success),
                           (''output'', JStr output)])
         \<and> (\<forall>t. t \<noteq> T \<longrightarrow>
               map_of state' t = (case state_file of None \<Rightarrow> None | Some state \<Rightarrow> map_of state t))
         \<and> ((case state_file of None \<Rightarrow> True | Some state \<Rightarrow> distinct (map fst state))
               \<longrightarrow> distinct (map fst state')))"
proof
  from task_in_choices[OF assms(2)] have T: "T \<in> set task_choices" "T \<noteq> ''all''" by simp_all
  have d: "dispatch T shell = [(T, func shell)]" using T(2) assms(2) by (rule dispatch_single)
  have "snd (maintenance_script T test config_file shell now state_file)
          = Some (dict_set T (task_record (now T) (fst (func shell)) (snd (func shell)))
                    (maintenance_load_state state_file))"
    by (simp add: maintenance_script_runs[OF assms(1) T(1)] d update_state_def)
  then show "\<exists>state'.
           snd (maintenance_script T test config_file shell now state_file) = Some state'
         \<and> map_of state' T
             = Some (JObj [(''last_run'', JStr (now T)), (''success'', JBool (fst (func shell))),
                           (''output'', JStr (snd (func shell)))])
         \<and> (\<forall>t. t \<noteq> T \<longrightarrow>
               map_of state' t = (case state_file of None \<Rightarrow> None | Some state \<Rightarrow> map_of state t))
         \<and> ((case state_file of None \<Rightarrow> True | Some state \<Rightarrow> distinct (map fst state))
               \<longrightarrow> distinct (map fst state'))"
    by (simp add: map_of_dict_set distinct_dict_set task_record_def maintenance_load_state_def
        split: option.splits)
  show "\<exists>state'.
           save_maint_state time T success output state_file = Some state'
         \<and> map_of state' T
             = Some (JObj [(''last_run'', JStr time), (''success'', JBool success),
                           (''output'', JStr output)])
         \<and> (\<forall>t. t \<noteq> T \<longrightarrow>
               map_of state' t = (case state_file of None \<Rightarrow> None | Some state \<Rightarrow> map_of state t))
         \<and> ((case state_file of None \<Rightarrow> True | Some state \<Rightarrow> distinct (map fst state))
               \<longrightarrow> distinct (map fst state'))"
    by (simp add: save_maint_state_def map_of_dict_set distinct_dict_set task_record_def
        load_maint_state_def split: option.splits)
qed

theorem single_task_record_witness:
  "load_maintenance_config False (Some config_with_credentials)
     = Inr \<lparr>TEST_MODE = False, BOT_TOKEN = JStr ''123:abc'', CHAT_ID = JStr ''42'',
            STATE_DIR = ''maintenance/state'', LOGS_DIR = ''maintenance/logs'', VENV_DIR = ''venv''\<rparr>
   \<and> map_of tasks_to_run ''pihole_update'' = Some pihole_update
   \<and> distinct (map fst
        [(''pihole_update'', JObj [(''last_run'', JStr ''2025-12-01T03:00:00''), (''note'', JStr ''old'')]),
         (''gravity'', JObj [(''last_run'', JStr ''2025-12-24T03:00:00''), (''success'', JBool True),
                             (''output'', JStr ''gravity built'')])])
   \<and> snd (maintenance_script ''pihole_update'' False (Some config_with_credentials) command_shell
            task_clock
            (Some [(''pihole_update'', JObj [(''last_run'', JStr ''2025-12-01T03:00:00''), (''note'', JStr ''old'')]),
                   (''gravity'', JObj [(''last_run'', JStr ''2025-12-24T03:00:00''), (''success'', JBool True),
                                       (''output'', JStr ''gravity built'')])]))
       = Some [(''pihole_update'', JObj [(''last_run'', JStr ''2026-01-01T03:05:00''),
                                         (''success'', JBool False), (''output'', JStr ''update failed'')]),
               (''gravity'', JObj [(''last_run'', JStr ''2025-12-24T03:00:00''), (''success'', JBool True),
                                   (''output'', JStr ''gravity built'')])]
   \<and> save_maint_state ''2026-01-01T03:05:09'' ''pihole_update'' True ''maintenance finished''
        (Some [(''pihole_update'', JObj [(''last_run'', JStr ''2025-12-01T03:00:00''), (''note'', JStr ''old'')]),
               (''gravity'', JObj [(''last_run'', JStr ''2025-12-24T03:00:00''), (''success'', JBool True),
                                   (''output'', JStr ''gravity built'')])])
       = Some [(''pihole_update'', JObj [(''last_run'', JStr ''2026-01-01T03:05:09''),
                                         (''success'', JBool True), (''output'', JStr ''maintenance finished'')]),
               (''gravity'', JObj [(''last_run'', JStr ''2025-12-24T03:00:00''), (''success'', JBool True),
                                   (''output'', JStr ''gravity built'')])]
   \<and> save_maint_state ''2026-01-01T03:05:09'' ''pihole_update'' True ''maintenance finished'' None
       = Some [(''pihole_update'', JObj [(''last_run'', JStr ''2026-01-01T03:05:09''),
                                         (''success'', JBool True), (''output'', JStr ''maintenance finished'')])]"
proof -
  have cfg: "load_maintenance_config False (Some config_with_credentials)
     = Inr \<lparr>TEST_MODE = False, BOT_TOKEN = JStr ''123:abc'', CHAT_ID = JStr ''42'',
            STATE_DIR = ''maintenance/state'', LOGS_DIR = ''maintenance/logs'', VENV_DIR = ''venv''\<rparr>"
    by (simp add: load_maintenance_config_def telegram_get_def maintenance_paths_def
        and_then_def dict_get_default_def config_with_credentials_def example_paths_def)
  have t: "map_of tasks_to_run ''pihole_update'' = Some pihole_update"
    by (simp add: tasks_to_run_def)
  have r: "pihole_update command_shell = (False, ''update failed'')"
    by (simp add: pihole_update_def run_command_def command_shell_def strip_def is_space_def)
  from single_task_record[OF cfg t, of command_shell task_clock
      "Some [(''pihole_update'', JObj [(''last_run'', JStr ''2025-12-01T03:00:00''), (''note'', JStr ''old'')]),
             (''gravity'', JObj [(''last_run'', JStr ''2025-12-24T03:00:00''), (''success'', JBool True),
                                 (''output'', JStr ''gravity built'')])]"
      "''2026-01-01T03:05:09''" True "''maintenance finished''"]
    single_task_record[OF cfg t, of command_shell task_clock None
      "''2026-01-01T03:05:09''" True "''maintenance finished''"]
    cfg t r
  show ?thesis
    by (simp add: maintenance_script_def task_choices_def dispatch_def update_state_def
        maintenance_load_state_def save_maint_state_def load_maint_state_def task_clock_def
        task_record_def Let_def)
qed


section \<open>Configuration errors\<close>

lemma and_then_simps:
  "and_then (Inl e) f = Inl e" "and_then (Inr v) f = f v"
  by (simp_all add: and_then_def)

lemma credential_absent_cases:
  assumes "credential_absent config key"
  obtains c where "config = JObj c" "map_of c ''telegram'' = None"
  | c telegram where "config = JObj c" "map_of c ''telegram'' = Some (JObj telegram)"
      "map_of telegram key = None"
proof -
  from assms obtain c where c: "config = JObj c"
    by (cases config) (simp_all add: credential_absent_def)
  show ?thesis
  proof (cases "map_of c ''telegram''")
    case None
    with c that(1) show ?thesis by blast
  next
    case (Some t)
    with assms c obtain telegram where "t = JObj telegram" "map_of telegram key = None"
      by (cases t) (simp_all add: credential_absent_def)
    with c Some that(2) show ?thesis by blast
  qed
qed

lemma credential_missing_cases:
  assumes "credential_missing config key"
  obtains c where "config = JObj c" "map_of c ''telegram'' = None"
  | c telegram where "config = JObj c" "map_of c ''telegram'' = Some (JObj telegram)"
      "map_of telegram key = None"
  | c telegram v where "config = JObj c" "map_of c ''telegram'' = Some (JObj telegram)"
      "map_of telegram key = Some v" "\<not> truthy v"
proof -
  from assms obtain c where c: "config = JObj c"
    by (cases config) (simp_all add: credential_missing_def)
  show ?thesis
  proof (cases "map_of c ''telegram''")
    case None
    with c that(1) show ?thesis by blast
  next
    case (Some t)
    with assms c obtain telegram where t: "t = JObj telegram"
      and m: "case map_of telegram key of None \<Rightarrow> True | Some v \<Rightarrow> \<not> truthy v"
      by (cases t) (simp_all add: credential_missing_def)
    show ?thesis
    proof (cases "map_of telegram key")
      case None
      with c Some t that(2) show ?thesis by blast
    next
      case (Some v)
      with m have "\<not> truthy v" by simp
      with c \<open>map_of c ''telegram'' = Some t\<close> t Some that(3) show ?thesis by blast
    qed
  qed
qed

lemma telegram_get_missing:
  assumes "credential_missing config key"
  shows "\<exists>v. telegram_get config key = Inr v \<and> \<not> truthy v"
  using assms
  by (rule credential_missing_cases)
     (simp_all add: telegram_get_def and_then_def dict_get_default_def)

lemma telegram_get_returns:
  assumes "credential_missing config key"
  shows "\<exists>v. telegram_get config key' = Inr v"
  using assms
  by (rule credential_missing_cases)
     (simp_all add: telegram_get_def and_then_def dict_get_default_def)

lemma telegram_index_absent:
  "credential_absent config key \<Longrightarrow> \<exists>e. telegram_index config key = Inl e"
  by (erule credential_absent_cases)
     (simp_all add: telegram_index_def and_then_def)

lemma telegram_index_present:
  assumes "credential_present config key"
  shows "\<exists>v. telegram_index config key = Inr v"
proof -
  from assms obtain c where c: "config = JObj c"
    by (cases config) (simp_all add: credential_present_def)
  with assms obtain t where t: "map_of c ''telegram'' = Some t"
    by (cases "map_of c ''telegram''") (simp_all add: credential_present_def)
  with assms c obtain telegram where tel: "t = JObj telegram" "map_of telegram key \<noteq> None"
    by (cases t) (simp_all add: credential_present_def)
  then obtain v where "map_of telegram key = Some v" by blast
  with c t tel show ?thesis by (simp add: telegram_index_def and_then_def)
qed

lemma down_alert_absent:
  assumes "credential_absent config ''bot_token'' \<or> credential_absent config ''chat_id''"
  shows "\<exists>e. load_down_alert_config (Some config) = Inl e"
proof (cases "telegram_index config ''bot_token''")
  case (Inl e)
  then show ?thesis by (simp add: load_down_alert_config_def and_then_simps)
next
  case (Inr tok)
  with assms telegram_index_absent[of config "''bot_token''"]
  have "credential_absent config ''chat_id''" by auto
  from telegram_index_absent[OF this] obtain e where "telegram_index config ''chat_id'' = Inl e"
    by blast
  with Inr show ?thesis by (simp add: load_down_alert_config_def and_then_simps)
qed

lemma missing_credentials_read:
  assumes "credential_missing config ''bot_token'' \<or> credential_missing config ''chat_id''"
  obtains tok chat where "telegram_get config ''bot_token'' = Inr tok"
    and "telegram_get config ''chat_id'' = Inr chat" and "\<not> truthy tok \<or> \<not> truthy chat"
proof -
  from assms show ?thesis
  proof
    assume m: "credential_missing config ''bot_token''"
    from telegram_get_missing[OF m] obtain tok
      where "telegram_get config ''bot_token'' = Inr tok" "\<not> truthy tok" by blast
    moreover from telegram_get_returns[OF m, of "''chat_id''"] obtain chat
      where "telegram_get config ''chat_id'' = Inr chat" by blast
    ultimately show ?thesis using that by blast
  next
    assume m: "credential_missing config ''chat_id''"
    from telegram_get_missing[OF m] obtain chat
      where "telegram_get config ''chat_id'' = Inr chat" "\<not> truthy chat" by blast
    moreover from telegram_get_returns[OF m, of "''bot_token''"] obtain tok
      where "telegram_get config ''bot_token'' = Inr tok" by blast
    ultimately show ?thesis using that by blast
  qed
qed


text \<open>
  Claim C7 fails on the code: monitor.py and maintenance.py read the credentials with
  \<^verbatim>\<open>get\<close> and go on without them (monitor.py skips the alert, maintenance.py turns
  \<open>TEST_MODE\<close> on after a warning).  With a configuration that has no \<^verbatim>\<open>telegram\<close>
  section both run to the end and write their state file, which did not exist before.
\<close>

theorem missing_credentials_not_fatal:
  "credential_missing config_without_credentials ''bot_token''
   \<and> credential_missing config_without_credentials ''chat_id''
   \<and> monitor_script False False (Some config_without_credentials) [(''cpu'', Some 10)] ''12:00'' None
       = (None, None,
          Some [(''metrics'', JObj [(''cpu'', JNum 10)]), (''alerts'', JObj [(''cpu'', JBool False)]),
                (''last_check'', JStr ''12:00'')])
   \<and> maintenance_script ''gravity'' False (Some config_without_credentials) example_shell
        example_clock None
       = (Inr ([(''gravity'', True)], False),
          Some [(''gravity'', JObj [(''last_run'', JStr ''2026-01-01T03:00:00''),
                                    (''success'', JBool True), (''output'', JStr ''done'')])])"
  by (simp add: credential_missing_def config_without_credentials_def example_paths_def
      monitor_script_def load_monitor_config_def telegram_get_def monitor_paths_def
      and_then_def dict_get_default_def monitor_main_def monitor_load_state_def
      check_alerts_def THRESHOLDS_def metrics_json_def
      maintenance_script_def task_choices_def load_maintenance_config_def maintenance_paths_def
      maintenance_load_state_def dispatch_def tasks_to_run_def gravity_update_def
      run_command_def example_shell_def example_clock_def update_state_def summary_lines_def
      task_record_def strip_def is_space_def Let_def)

text \<open>
  Claim C7 as amended.  A missing configuration file ends each of the four entry points
  with an error and leaves the state file as it was (maintenance.py has by then already
  exited with status 2 on a task outside its choices).  A missing bot token (absent,
  null or empty) ends monitor\_bot.py, which reads no chat id.  down\_alert.py ends with
  an error, the state file untouched, when the \<^verbatim>\<open>telegram\<close> section or one of the two
  keys is absent; when both keys are present it runs whatever their values, null and
  empty included.  In maintenance.py and monitor.py a missing credential (absent, null
  or empty) is not fatal: when the paths of the configuration load, the tasks run and
  the state is written with the Telegram summary off, and the metrics are evaluated and
  stored with the alert logged or skipped.
\<close>

theorem configuration_errors:
  "maintenance_script T test None shell now state_file
     = (Inl (SystemExit (if T \<in> set task_choices then 1 else 2)), state_file)
   \<and> monitor_script test F None metrics time monitor_state = (Some (SystemExit 1), None, monitor_state)
   \<and> down_alert_script None obs alert_state = (Some FileNotFoundError, [], alert_state)
   \<and> load_bot_token None = Inl FileNotFoundError
   \<and> (credential_missing config ''bot_token'' \<longrightarrow> load_bot_token (Some config) = Inl ValueError)
   \<and> (credential_absent config ''bot_token'' \<or> credential_absent config ''chat_id'' \<longrightarrow>
        (\<exists>e. down_alert_script (Some config) obs alert_state = (Some e, [], alert_state)))
   \<and> (credential_present config ''bot_token'' \<and> credential_present config ''chat_id'' \<longrightarrow>
        (\<forall>paths. down_alert_paths config = Inr paths \<longrightarrow>
           down_alert_script (Some config) obs alert_state = (None, main_logic alert_state obs)))
   \<and> (credential_missing config ''bot_token'' \<or> credential_missing config ''chat_id'' \<longrightarrow>
        T \<in> set task_choices \<longrightarrow>
        (\<forall>paths. maintenance_paths config = Inr paths \<longrightarrow>
           maintenance_script T test (Some config) shell now state_file
             = (Inr (summary_lines (dispatch T shell), False),
                Some (update_state now (dispatch T shell)
                        (case state_file of None \<Rightarrow> [] | Some state \<Rightarrow> state)))))
   \<and> (credential_missing config ''bot_token'' \<or> credential_missing config ''chat_id'' \<longrightarrow>
        (\<forall>paths. monitor_paths config = Inr paths \<longrightarrow>
           monitor_script test F (Some config) metrics time monitor_state
             = (case monitor_main F metrics time monitor_state of
                  (err, sent, state_file') \<Rightarrow>
                    (err, map_option (\<lambda>msg. (msg, if test then Logged else Skipped)) sent,
                     state_file'))))"
proof (intro conjI impI allI)
  show "maintenance_script T test None shell now state_file
          = (Inl (SystemExit (if T \<in> set task_choices then 1 else 2)), state_file)"
    by (simp add: maintenance_script_def load_maintenance_config_def)
  show "monitor_script test F None metrics time monitor_state
          = (Some (SystemExit 1), None, monitor_state)"
    by (simp add: monitor_script_def load_monitor_config_def)
  show "down_alert_script None obs alert_state = (Some FileNotFoundError, [], alert_state)"
    by (simp add: down_alert_script_def load_down_alert_config_def)
  show "load_bot_token None = Inl FileNotFoundError"
    by (simp add: load_bot_token_def)
next
  assume "credential_missing config ''bot_token''"
  from telegram_get_missing[OF this]
  show "load_bot_token (Some config) = Inl ValueError"
    by (auto simp add: load_bot_token_def and_then_simps)
next
  assume "credential_absent config ''bot_token'' \<or> credential_absent config ''chat_id''"
  from down_alert_absent[OF this] obtain e where "load_down_alert_config (Some config) = Inl e"
    by blast
  then show "\<exists>e. down_alert_script (Some config) obs alert_state = (Some e, [], alert_state)"
    by (simp add: down_alert_script_def)
next
  fix paths
  assume p: "credential_present config ''bot_token'' \<and> credential_present config ''chat_id''"
    and paths: "down_alert_paths config = Inr paths"
  from p telegram_index_present obtain tok chat
    where "telegram_index config ''bot_token'' = Inr tok" "telegram_index config ''chat_id'' = Inr chat"
    by blast
  with paths show "down_alert_script (Some config) obs alert_state = (None, main_logic alert_state obs)"
    by (cases paths) (simp add: down_alert_script_def load_down_alert_config_def and_then_simps)
next
  fix paths
  assume m: "credential_missing config ''bot_token'' \<or> credential_missing config ''chat_id''"
    and T: "T \<in> set task_choices"
    and paths: "maintenance_paths config = Inr paths"
  from m obtain tok chat where r: "telegram_get config ''bot_token'' = Inr tok"
    "telegram_get config ''chat_id'' = Inr chat" and f: "\<not> truthy tok \<or> \<not> truthy chat"
    by (rule missing_credentials_read)
  obtain state_dir logs_dir venv_dir where pp: "paths = (state_dir, logs_dir, venv_dir)"
    by (cases paths) auto
  have "load_maintenance_config test (Some config)
          = Inr \<lparr>TEST_MODE = True, BOT_TOKEN = tok, CHAT_ID = chat,
                 STATE_DIR = state_dir, LOGS_DIR = logs_dir, VENV_DIR = venv_dir\<rparr>"
    using r f paths pp by (auto simp add: load_maintenance_config_def and_then_simps)
  from maintenance_script_runs[OF this T, of shell now state_file]
  show "maintenance_script T test (Some config) shell now state_file
          = (Inr (summary_lines (dispatch T shell), False),
             Some (update_state now (dispatch T shell)
                     (case state_file of None \<Rightarrow> [] | Some state \<Rightarrow> state)))"
    by (simp add: maintenance_load_state_def split: option.splits)
next
  fix paths
  assume m: "credential_missing config ''bot_token'' \<or> credential_missing config ''chat_id''"
    and paths: "monitor_paths config = Inr paths"
  from m obtain tok chat where r: "telegram_get config ''bot_token'' = Inr tok"
    "telegram_get config ''chat_id'' = Inr chat" and f: "\<not> truthy tok \<or> \<not> truthy chat"
    by (rule missing_credentials_read)
  obtain logs_dir state_dir where pp: "paths = (logs_dir, state_dir)" by (cases paths) auto
  have l: "load_monitor_config (Some config) = Inr (tok, chat, logs_dir, state_dir)"
    using r paths pp by (simp add: load_monitor_config_def and_then_simps)
  have "send_telegram test tok chat = (if test then Logged else Skipped)"
    using f by (auto simp: send_telegram_def)
  with l
  show "monitor_script test F (Some config) metrics time monitor_state
          = (case monitor_main F metrics time monitor_state of
               (err, sent, state_file') \<Rightarrow>
                 (err, map_option (\<lambda>msg. (msg, if test then Logged else Skipped)) sent,
                  state_file'))"
    by (simp add: monitor_script_def)
qed

theorem configuration_errors_witness:
  "credential_absent config_without_credentials ''bot_token''
   \<and> credential_missing config_without_credentials ''bot_token''
   \<and> credential_missing config_with_empty_credentials ''bot_token''
   \<and> credential_present config_with_empty_credentials ''bot_token''
   \<and> credential_present config_with_empty_credentials ''chat_id''
   \<and> ''gravity'' \<in> set task_choices
   \<and> maintenance_paths config_with_empty_credentials
       = Inr (''maintenance/state'', ''maintenance/logs'', ''venv'')
   \<and> monitor_paths config_with_empty_credentials = Inr (''monitor/logs'', ''monitor/state'')
   \<and> down_alert_paths config_with_empty_credentials
       = Inr (''down_alert/logs'', ''down_alert/state'')
   \<and> maintenance_script ''bogus'' False None example_shell example_clock None
       = (Inl (SystemExit 2), None)
   \<and> down_alert_script (Some config_without_credentials) (True, True) None
       = (Some (KeyError ''telegram''), [], None)
   \<and> load_bot_token (Some config_without_credentials) = Inl ValueError
   \<and> load_bot_token (Some config_with_empty_credentials) = Inl ValueError
   \<and> down_alert_script (Some config_with_empty_credentials) (False, True) None
       = (None, [PiholeDown],
          Some [(''pihole_status'', JStr ''down''), (''internet'', JBool True)])
   \<and> maintenance_script ''gravity'' False (Some config_with_empty_credentials) example_shell
        example_clock None
       = (Inr ([(''gravity'', True)], False),
          Some [(''gravity'', JObj [(''last_run'', JStr ''2026-01-01T03:00:00''),
                                    (''success'', JBool True), (''output'', JStr ''done'')])])
   \<and> monitor_script False True (Some config_with_empty_credentials) [(''cpu'', Some 99)] ''12:00'' None
       = (None, Some ([Header, Breach ''cpu'' 99 85], Skipped),
          Some [(''metrics'', JObj [(''cpu'', JNum 99)]), (''alerts'', JObj [(''cpu'', JBool True)]),
                (''last_check'', JStr ''12:00'')])"
proof -
  have a: "credential_absent config_without_credentials ''bot_token''"
    and m: "credential_missing config_without_credentials ''bot_token''"
    and e: "credential_missing config_with_empty_credentials ''bot_token''"
    and p: "credential_present config_with_empty_credentials ''bot_token''"
      "credential_present config_with_empty_credentials ''chat_id''"
    by (simp_all add: credential_absent_def credential_missing_def credential_present_def
        config_without_credentials_def config_with_empty_credentials_def)
  have g: "''gravity'' \<in> set task_choices" by (simp add: task_choices_def)
  have pm: "maintenance_paths config_with_empty_credentials
              = Inr (''maintenance/state'', ''maintenance/logs'', ''venv'')"
    by (simp add: maintenance_paths_def and_then_def config_with_empty_credentials_def
        example_paths_def)
  have po: "monitor_paths config_with_empty_credentials = Inr (''monitor/logs'', ''monitor/state'')"
    by (simp add: monitor_paths_def and_then_def dict_get_default_def
        config_with_empty_credentials_def example_paths_def)
  have pd: "down_alert_paths config_with_empty_credentials
              = Inr (''down_alert/logs'', ''down_alert/state'')"
    by (simp add: down_alert_paths_def and_then_def config_with_empty_credentials_def
        example_paths_def)
  have ki: "telegram_index config_without_credentials ''bot_token'' = Inl (KeyError ''telegram'')"
    by (simp add: telegram_index_def and_then_def config_without_credentials_def)
  have ml: "main_logic None (False, True)
              = ([PiholeDown], Some [(''pihole_status'', JStr ''down''), (''internet'', JBool True)])"
    by (simp add: main_logic_def load_state_def save_state_def pihole_check_def internet_check_def
        dict_get_def py_eq_str_def py_eq_bool_def status_label_def Let_def)
  have mm: "monitor_main True [(''cpu'', Some 99)] ''12:00'' None
              = (None, Some [Header, Breach ''cpu'' 99 85],
                 Some [(''metrics'', JObj [(''cpu'', JNum 99)]), (''alerts'', JObj [(''cpu'', JBool True)]),
                       (''last_check'', JStr ''12:00'')])"
    by (simp add: monitor_main_def monitor_load_state_def dict_get_default_def check_alerts_def
        THRESHOLDS_def metrics_json_def)
  have d: "dispatch ''gravity'' example_shell = [(''gravity'', (True, ''done''))]"
    by (simp add: dispatch_def tasks_to_run_def gravity_update_def run_command_def
        example_shell_def strip_def is_space_def)
  from configuration_errors[of "''bogus''" False example_shell example_clock None True
      "[(''cpu'', Some 99)]" "''12:00''" None "(True, True)" None config_without_credentials]
    configuration_errors[of "''gravity''" False example_shell example_clock None True
      "[(''cpu'', Some 99)]" "''12:00''" None "(False, True)" None config_with_empty_credentials]
    a m e p g pm po pd ki ml mm d
  show ?thesis
    by (simp add: down_alert_script_def load_down_alert_config_def and_then_def task_choices_def
        summary_lines_def update_state_def example_clock_def task_record_def)
qed


section \<open>monitor\_bot.py: the status command\<close>

text \<open>
  Claim C8.  When the forced check raises or returns a non-zero code, the status command
  still answers: it first sends the warning that the last saved metrics are used, then
  the metrics of the persisted state (or, when there is no state yet, the message that
  says so).
\<close>

theorem stale_status:
  assumes "live_check_failed outcome"
    and "state \<noteq> []"
    and "dict_get_default state ''metrics'' (JObj []) = JObj metrics"
  shows "status_command outcome (Some state)
           = ([StaleWarning,
               Metrics (dict_get_default state ''last_check'' (JStr ''N/A''))
                 (dict_get_default metrics ''cpu'' (JStr ''N/A''))
                 (dict_get_default metrics ''ram'' (JStr ''N/A''))
                 (dict_get_default metrics ''disk'' (JStr ''N/A''))
                 (dict_get_default metrics ''temp'' (JStr ''N/A''))], None)
       \<and> status_command outcome None = ([StaleWarning, NoState], None)"
proof -
  from assms(1) have "\<not> run_live_check outcome"
    by (cases outcome) (simp_all add: live_check_failed_def run_live_check_def)
  with assms(2,3) show ?thesis
    by (simp add: status_command_def load_monitor_state_def format_metrics_def and_then_def Let_def)
qed

theorem stale_status_witness:
  "live_check_failed (Completed 1 [] ''Traceback'')
   \<and> status_command (Completed 1 [] ''Traceback'')
        (Some [(''metrics'', JObj [(''cpu'', JNum 12), (''temp'', JNull)]),
               (''alerts'', JObj []), (''last_check'', JStr ''11:55'')])
       = ([StaleWarning,
           Metrics (JStr ''11:55'') (JNum 12) (JStr ''N/A'') (JStr ''N/A'') JNull], None)
   \<and> status_command (Completed 1 [] ''Traceback'') None = ([StaleWarning, NoState], None)"
  using stale_status[of "Completed 1 [] ''Traceback''"
      "[(''metrics'', JObj [(''cpu'', JNum 12), (''temp'', JNull)]),
        (''alerts'', JObj []), (''last_check'', JStr ''11:55'')]"
      "[(''cpu'', JNum 12), (''temp'', JNull)]"]
  by (simp add: live_check_failed_def dict_get_default_def)

end
